theory Spec2Isabelle
  imports Complex_Main "HOL-Library.Sublist" "HOL-Library.Char_ord" "HOL-Library.List_Lexorder"
begin

section \<open>xScout dashboard: the scoring functions of \<open>dashboard/app.js\<close>\<close>

text \<open>
  The development embeds the numeric core of \<open>app.js\<close>: the metric catalog
  \<open>METRICS\<close>, the role templates \<open>ROLES\<close>, the three scoring functions
  \<open>calcRoleFit\<close>, \<open>euclideanSimilarity\<close> and \<open>computeOverall\<close>, the leaderboard of
  \<open>renderRoleFit\<close> and the shortlist of \<open>renderSimilar\<close>.

  Modelling conventions.
  \<^item> A JavaScript number is an IEEE 754 binary64 value, modelled as the real number it
    denotes. Every arithmetic operation of the code is the exact operation followed
    by \<open>binary64\<close>, the rounding to the nearest binary64 value with ties to even; a
    decimal literal of the source is the rounding of its decimal value. Subnormal
    values are modelled; infinities and NaN are not, so magnitudes stay below
    \<open>2 ^ 1024\<close>, and the only NaN is the one \<open>parseInt\<close> returns, which is \<open>None\<close>.
  \<^item> A player is a record of the fields the code reads by name (\<open>player_id\<close>,
    \<open>name\<close>, \<open>position\<close>, \<open>age\<close>, \<open>minutes_played\<close>, \<open>overall\<close>) and a mapping
    \<open>metrics\<close> holding the numeric properties that are read by a computed key
    (\<open>player[m]\<close>); a key that is not in the mapping is an absent property
    (\<open>undefined\<close>). The computed keys are the names of \<open>METRICS\<close> and the keys of
    a role template, which are metric names; reading one of the six named fields
    through a computed key is outside the model.
  \<^item> \<open>loadData\<close> starts at the parsed response; the failure of the request is not
    part of the model.
  \<^item> The global array \<open>PLAYERS\<close> and the values of the form controls are passed as
    arguments.
  \<^item> \<open>Array.prototype.sort\<close> is the stable sort that ECMAScript prescribes since
    the 2019 edition, written as insertion from the right with the comparator of the
    call site.
\<close>

subsection \<open>Data\<close>

record player =
  player_id :: int
  name :: string
  position :: string
  age :: int
  minutes_played :: int
  overall :: "int option"
  metrics :: "string \<rightharpoonup> real"

text \<open>The object \<open>{ ...pl, fit: f }\<close>: every field of the player and the score.\<close>

record fit_row = player +
  fit :: int

text \<open>The object \<open>{ ...p, sim: s }\<close>.\<close>

record sim_row = player +
  sim :: int

definition with_fit :: "player \<Rightarrow> int \<Rightarrow> fit_row" where
  "with_fit pl f = player.extend pl (fit_row.fields f)"

definition with_sim :: "player \<Rightarrow> int \<Rightarrow> sim_row" where
  "with_sim p s = player.extend p (sim_row.fields s)"

text \<open>
  The entry \<open>{ role, fit }\<close> of the per-player role table; its score is the field
  \<open>role_score\<close>, the name \<open>fit\<close> being taken by the leaderboard rows.
\<close>

record role_fit =
  role :: string
  role_score :: int

text \<open>
  A render function either renders (the value it rendered is kept), or leaves through
  its guard \<open>if (!p) return;\<close> without rendering, or throws a \<open>TypeError\<close> by
  reading a property of \<open>undefined\<close>.
\<close>

datatype 'a outcome = Returned_early | Threw_TypeError | Rendered 'a

subsection \<open>Numbers\<close>

text \<open>
  Rounding of a real to the nearest integer, a tie going to the even neighbour.
\<close>

definition round_even :: "real \<Rightarrow> int" where
  "round_even y =
     (let f = \<lfloor>y\<rfloor>; r = y - of_int f
      in if r < 1 / 2 then f else if 1 / 2 < r then f + 1 else if even f then f else f + 1)"

text \<open>
  The distance of neighbouring binary64 values around \<open>x\<close>: 52 binary places below
  the leading bit of \<open>x\<close>, and never less than \<open>2 ^ - 1074\<close>, the distance of the
  subnormal values.
\<close>

definition quantum :: "real \<Rightarrow> real" where
  "quantum x = 2 powr of_int (max (\<lfloor>log 2 \<bar>x\<bar>\<rfloor> - 52) (- 1074))"

text \<open>The binary64 value nearest to a real, ties to even.\<close>

definition binary64 :: "real \<Rightarrow> real" where
  "binary64 x = (if x = 0 then 0 else of_int (round_even (x / quantum x)) * quantum x)"

text \<open>
  The operators \<open>+\<close>, \<open>-\<close>, \<open>*\<close>, \<open>/\<close> and \<open>Math.sqrt\<close> on numbers. \<open>Math.pow(x, 2)\<close>
  is the rounded square, which is what the engines return for the exponent 2.
\<close>

definition js_add :: "real \<Rightarrow> real \<Rightarrow> real" where
  "js_add x y = binary64 (x + y)"

definition js_sub :: "real \<Rightarrow> real \<Rightarrow> real" where
  "js_sub x y = binary64 (x - y)"

definition js_mul :: "real \<Rightarrow> real \<Rightarrow> real" where
  "js_mul x y = binary64 (x * y)"

definition js_div :: "real \<Rightarrow> real \<Rightarrow> real" where
  "js_div x y = binary64 (x / y)"

definition Math_sqrt :: "real \<Rightarrow> real" where
  "Math_sqrt x = binary64 (sqrt x)"

definition Math_pow2 :: "real \<Rightarrow> real" where
  "Math_pow2 x = binary64 (x * x)"

subsection \<open>Configuration tables\<close>

definition METRICS :: "string list" where
  "METRICS =
    [''shots_p90'', ''xg_p90'', ''shot_conversion'',
     ''prog_passes_p90'', ''pass_completion'', ''key_passes_p90'',
     ''dribbles_p90'', ''pressures_p90'', ''press_success'',
     ''aerial_win_rate'', ''distance_p90'']"

text \<open>
  A role template is the list of its (attribute, weight) entries in the order
  \<open>Object.entries\<close> yields them, which is the order of declaration. A weight is
  the binary64 value of the literal in the source.
\<close>

type_synonym role_weights = "(string \<times> real) list"

definition ROLES :: "(string \<times> role_weights) list" where
  "ROLES =
    [(''Poacher'',
        [(''shot_conversion'', binary64 0.30), (''xg_p90'', binary64 0.25), (''shots_p90'', binary64 0.20),
         (''aerial_win_rate'', binary64 0.15), (''press_success'', binary64 0.10)]),
     (''Target Man'',
        [(''aerial_win_rate'', binary64 0.30), (''xg_p90'', binary64 0.25), (''shot_conversion'', binary64 0.20),
         (''pressures_p90'', binary64 0.15), (''dribbles_p90'', binary64 0.10)]),
     (''Winger'',
        [(''dribbles_p90'', binary64 0.30), (''shots_p90'', binary64 0.20), (''key_passes_p90'', binary64 0.20),
         (''distance_p90'', binary64 0.15), (''press_success'', binary64 0.15)]),
     (''Box-to-Box MF'',
        [(''distance_p90'', binary64 0.25), (''prog_passes_p90'', binary64 0.20), (''pressures_p90'', binary64 0.20),
         (''dribbles_p90'', binary64 0.15), (''shots_p90'', binary64 0.20)]),
     (''Ball-Playing Def'',
        [(''pass_completion'', binary64 0.30), (''prog_passes_p90'', binary64 0.25), (''key_passes_p90'', binary64 0.20),
         (''aerial_win_rate'', binary64 0.15), (''pressures_p90'', binary64 0.10)]),
     (''Deep-Lying Playmaker'',
        [(''key_passes_p90'', binary64 0.30), (''pass_completion'', binary64 0.30), (''prog_passes_p90'', binary64 0.25),
         (''xg_p90'', binary64 0.15)]),
     (''Pressing Winger'',
        [(''pressures_p90'', binary64 0.30), (''press_success'', binary64 0.25), (''distance_p90'', binary64 0.20),
         (''dribbles_p90'', binary64 0.25)])]"

subsection \<open>Library functions of the language\<close>

text \<open>
  \<open>Math.round\<close>: the nearest integer, a half rounded towards \<open>+\<infinity>\<close>. It is exact
  on its argument: no addition of \<open>0.5\<close> in binary64 takes place.
\<close>

definition Math_round :: "real \<Rightarrow> int" where
  "Math_round x = \<lfloor>x + 1 / 2\<rfloor>"

text \<open>
  \<open>player[key] || 0\<close>: the property when it is present and truthy, else \<open>0\<close>. Of the
  numbers only \<open>0\<close> is falsy, and it is replaced by \<open>0\<close>.
\<close>

definition or0 :: "real option \<Rightarrow> real" where
  "or0 v = (case v of None \<Rightarrow> 0 | Some x \<Rightarrow> if x = 0 then 0 else x)"

text \<open>
  \<open>xs.sort(cmp)\<close>: \<open>a\<close> stays before \<open>b\<close> unless \<open>cmp(a, b) > 0\<close>; elements that
  compare equal keep their order.
\<close>

fun insert_sorted :: "('a \<Rightarrow> 'a \<Rightarrow> int) \<Rightarrow> 'a \<Rightarrow> 'a list \<Rightarrow> 'a list" where
  "insert_sorted cmp x [] = [x]"
| "insert_sorted cmp x (y # ys) =
     (if cmp x y \<le> 0 then x # y # ys else y # insert_sorted cmp x ys)"

definition Array_sort :: "('a \<Rightarrow> 'a \<Rightarrow> int) \<Rightarrow> 'a list \<Rightarrow> 'a list" where
  "Array_sort cmp xs = foldr (insert_sorted cmp) xs []"

text \<open>
  \<open>parseInt(s)\<close> with no radix, on ASCII input: white space is skipped, then an
  optional sign, then an optional \<open>0x\<close> or \<open>0X\<close> that selects radix 16, then the
  longest run of digits of the radix. No digit at all gives NaN, here \<open>None\<close>.
\<close>

definition StrWhiteSpaceChar :: "char \<Rightarrow> bool" where
  "StrWhiteSpaceChar c \<longleftrightarrow> c \<in> set [CHR 0x09, CHR 0x0A, CHR 0x0B, CHR 0x0C, CHR 0x0D, CHR 0x20]"

definition digit_value :: "char \<Rightarrow> nat option" where
  "digit_value c =
     (let n = (of_char c :: nat) in
      if 48 \<le> n \<and> n \<le> 57 then Some (n - 48)
      else if 97 \<le> n \<and> n \<le> 122 then Some (n - 87)
      else if 65 \<le> n \<and> n \<le> 90 then Some (n - 55)
      else None)"

definition is_digit :: "nat \<Rightarrow> char \<Rightarrow> bool" where
  "is_digit R c = (case digit_value c of None \<Rightarrow> False | Some d \<Rightarrow> d < R)"

definition parseInt :: "string \<Rightarrow> int option" where
  "parseInt inputString =
     (let S = dropWhile StrWhiteSpaceChar inputString;
          sign = (if S \<noteq> [] \<and> hd S = CHR ''-'' then - 1 else 1 :: int);
          S = (if S \<noteq> [] \<and> (hd S = CHR ''+'' \<or> hd S = CHR ''-'') then tl S else S);
          hex = (take 2 S = ''0x'' \<or> take 2 S = ''0X'');
          R = (if hex then 16 else 10 :: nat);
          S = (if hex then drop 2 S else S);
          Z = takeWhile (is_digit R) S
      in if Z = [] then None
         else Some (sign * int (foldl (\<lambda>acc c. acc * R + the (digit_value c)) 0 Z)))"

text \<open>\<open>x <= y\<close> where \<open>y\<close> may be NaN: every comparison with NaN is false.\<close>

definition le_number :: "int \<Rightarrow> int option \<Rightarrow> bool" where
  "le_number x y = (case y of None \<Rightarrow> False | Some n \<Rightarrow> x \<le> n)"

subsection \<open>Scoring functions\<close>

definition calcRoleFit :: "'a player_scheme \<Rightarrow> role_weights \<Rightarrow> int" where
  "calcRoleFit player roleWeights =
     (let score = fold (\<lambda>(attr, weight) score.
                          js_add score (js_mul (or0 (metrics player attr)) weight))
                    roleWeights 0
      in Math_round (min score 99))"

text \<open>
  The body of \<open>euclideanSimilarity\<close> with the global \<open>METRICS\<close> as an argument. For
  an empty catalog the code divides 0 by 0; the model is for a catalog with entries.
\<close>

definition euclideanSimilarity_on ::
  "string list \<Rightarrow> 'a player_scheme \<Rightarrow> 'b player_scheme \<Rightarrow> int" where
  "euclideanSimilarity_on catalog a b =
     (let sum = fold (\<lambda>m sum. js_add sum
                        (Math_pow2 (js_sub (or0 (metrics a m)) (or0 (metrics b m)))))
                  catalog 0;
          dist = Math_sqrt sum;
          maxDist = Math_sqrt (js_mul (js_mul (real (length catalog)) 100) 100)
      in Math_round (js_mul (js_sub 1 (js_div dist maxDist)) 100))"

definition euclideanSimilarity :: "'a player_scheme \<Rightarrow> 'b player_scheme \<Rightarrow> int" where
  "euclideanSimilarity a b = euclideanSimilarity_on METRICS a b"

definition computeOverall :: "'a player_scheme \<Rightarrow> int" where
  "computeOverall player =
     (let vals = map (\<lambda>m. or0 (metrics player m)) METRICS
      in Math_round (js_div (foldl (\<lambda>a b. js_add a b) 0 vals) (real (length vals))))"

subsection \<open>The formulas of the specification\<close>

text \<open>
  The three scores as the specification words them, in exact real arithmetic: an
  absent metric counts as 0; the similarity is \<open>round ((1 - dist / maxDist) * 100)\<close>
  for the Euclidean distance over the catalog and \<open>maxDist = sqrt (N * 100\<^sup>2)\<close>; the
  role fit is the weighted sum capped at 99 and rounded; the overall rating is the
  rounded mean over the catalog. Each comes with its value before the final
  rounding. They are what the functions of the code are compared with.
\<close>

definition metric_value :: "'a player_scheme \<Rightarrow> string \<Rightarrow> real" where
  "metric_value p m = (case metrics p m of None \<Rightarrow> 0 | Some v \<Rightarrow> v)"

definition spec_similarity_score ::
  "string list \<Rightarrow> 'a player_scheme \<Rightarrow> 'b player_scheme \<Rightarrow> real" where
  "spec_similarity_score catalog a b =
     (1 - sqrt (\<Sum>m\<leftarrow>catalog. (metric_value a m - metric_value b m)\<^sup>2)
            / sqrt (real (length catalog) * 100\<^sup>2)) * 100"

definition spec_similarity :: "string list \<Rightarrow> 'a player_scheme \<Rightarrow> 'b player_scheme \<Rightarrow> int" where
  "spec_similarity catalog a b = round (spec_similarity_score catalog a b)"

definition spec_roleFit_score :: "'a player_scheme \<Rightarrow> role_weights \<Rightarrow> real" where
  "spec_roleFit_score p t = min (\<Sum>(m, w)\<leftarrow>t. w * metric_value p m) 99"

definition spec_roleFit :: "'a player_scheme \<Rightarrow> role_weights \<Rightarrow> int" where
  "spec_roleFit p t = round (spec_roleFit_score p t)"

definition spec_overall_score :: "'a player_scheme \<Rightarrow> real" where
  "spec_overall_score p = (\<Sum>m\<leftarrow>METRICS. metric_value p m) / real (length METRICS)"

definition spec_overall :: "'a player_scheme \<Rightarrow> int" where
  "spec_overall p = round (spec_overall_score p)"

subsection \<open>Loading\<close>

text \<open>
  \<open>loadData\<close> attaches the overall rating to every player and sorts the array by
  name. \<open>String.prototype.localeCompare\<close> depends on the locale of the host and is a
  parameter.
\<close>

definition loadData :: "(string \<Rightarrow> string \<Rightarrow> int) \<Rightarrow> player list \<Rightarrow> player list" where
  "loadData localeCompare json =
     (let PLAYERS = map (\<lambda>p. p\<lparr>overall := Some (computeOverall p)\<rparr>) json
      in Array_sort (\<lambda>a b. localeCompare (name a) (name b)) PLAYERS)"

subsection \<open>Role fit: the role table and the leaderboard\<close>

text \<open>
  The leaderboard expression of \<open>renderRoleFit\<close>, for the weights of the role that is
  shown: every player with its fit, sorted by descending fit, the first 20.
\<close>

definition leaderboard :: "player list \<Rightarrow> role_weights \<Rightarrow> fit_row list" where
  "leaderboard PLAYERS roleWeights =
     take 20 (Array_sort (\<lambda>a b. fit b - fit a)
                (map (\<lambda>pl. with_fit pl (calcRoleFit pl roleWeights)) PLAYERS))"

text \<open>
  \<open>renderRoleFit\<close>: the selected player, the table of its fit for every role sorted
  by descending fit, the best role, and the leaderboard for the best role. \<open>ROLES\<close>
  has entries, so \<open>fits[0]\<close> exists; were it \<open>undefined\<close>, \<open>best.role\<close> would
  throw, and so would \<open>Object.entries\<close> of a role that \<open>ROLES\<close> does not have.
\<close>

definition renderRoleFit :: "player list \<Rightarrow> nat \<Rightarrow> (role_fit list \<times> fit_row list) outcome" where
  "renderRoleFit PLAYERS role_select =
     (if role_select < length PLAYERS then
        let p = PLAYERS ! role_select;
            fits = Array_sort (\<lambda>a b. role_score b - role_score a)
                     (map (\<lambda>(r, weights). \<lparr>role = r, role_score = calcRoleFit p weights\<rparr>) ROLES)
        in (case fits of
              [] \<Rightarrow> Threw_TypeError
            | best # _ \<Rightarrow>
                (case map_of ROLES (role best) of
                   None \<Rightarrow> Threw_TypeError
                 | Some weights \<Rightarrow> Rendered (fits, leaderboard PLAYERS weights)))
      else Returned_early)"

subsection \<open>Similar players: the shortlist\<close>

text \<open>
  \<open>renderSimilar\<close>. The select \<open>similar-select\<close> carries an index into \<open>PLAYERS\<close>
  (\<open>populateSelect\<close> sets the option values to the indices); an index with no player
  gives \<open>undefined\<close> and the function returns. The two filter controls are strings.
\<close>

definition renderSimilar :: "player list \<Rightarrow> nat \<Rightarrow> string \<Rightarrow> string \<Rightarrow> sim_row list outcome" where
  "renderSimilar PLAYERS similar_select similar_pos_filter similar_age_filter =
     (if similar_select < length PLAYERS then
        let ref = PLAYERS ! similar_select;
            posFilter = similar_pos_filter;
            ageFilter = parseInt similar_age_filter;
            pool = filter (\<lambda>p. player_id p \<noteq> player_id ref) PLAYERS;
            pool = (if posFilter \<noteq> ''all'' then filter (\<lambda>p. position p = posFilter) pool else pool);
            pool = filter (\<lambda>p. le_number (age p) ageFilter) pool;
            scored = take 5 (Array_sort (\<lambda>a b. sim b - sim a)
                               (map (\<lambda>p. with_sim p (euclideanSimilarity ref p)) pool))
        in Rendered scored
      else Returned_early)"

subsection \<open>The candidate pool\<close>

text \<open>
  The three filters of \<open>renderSimilar\<close> as one predicate on a candidate: another
  identifier than the reference player's, the position asked for unless the position
  filter is \<open>all\<close>, and an age that is at most the parsed age filter.
\<close>

definition passes_filters :: "player \<Rightarrow> string \<Rightarrow> int option \<Rightarrow> player \<Rightarrow> bool" where
  "passes_filters ref posFilter ageFilter p \<longleftrightarrow>
     player_id p \<noteq> player_id ref
     \<and> (posFilter = ''all'' \<or> position p = posFilter)
     \<and> le_number (age p) ageFilter"

subsection \<open>Example records\<close>

text \<open>
  A player all of whose catalog metrics have the value \<open>v\<close>, a player with no
  metric at all, a player with the metrics of a list, a squad of six, and the first
  role template of \<open>ROLES\<close>; they are the inputs at which the theorems below are
  instantiated.
\<close>

definition flat_profile :: "int \<Rightarrow> string \<Rightarrow> string \<Rightarrow> int \<Rightarrow> real \<Rightarrow> player" where
  "flat_profile i n pos a v =
     \<lparr>player_id = i, name = n, position = pos, age = a, minutes_played = 900,
      overall = None, metrics = map_of (map (\<lambda>m. (m, v)) METRICS)\<rparr>"

definition blank_profile :: "int \<Rightarrow> string \<Rightarrow> string \<Rightarrow> int \<Rightarrow> player" where
  "blank_profile i n pos a =
     \<lparr>player_id = i, name = n, position = pos, age = a, minutes_played = 900,
      overall = None, metrics = Map.empty\<rparr>"

definition listed_profile :: "(string \<times> real) list \<Rightarrow> player" where
  "listed_profile kvs =
     \<lparr>player_id = 7, name = ''Gil'', position = ''MF'', age = 29, minutes_played = 900,
      overall = None, metrics = map_of kvs\<rparr>"

definition squad :: "player list" where
  "squad =
     [flat_profile 1 ''Ada'' ''FW'' 24 50,
      flat_profile 2 ''Bo'' ''FW'' 30 20,
      flat_profile 3 ''Cy'' ''MF'' 27 20,
      flat_profile 4 ''Di'' ''FW'' 35 45,
      flat_profile 5 ''Ed'' ''FW'' 22 80,
      flat_profile 6 ''Flo'' ''FW'' 41 50]"

definition Poacher :: role_weights where
  "Poacher = the (map_of ROLES ''Poacher'')"

text \<open>
  A comparison of strings for the place of \<open>localeCompare\<close>: the lexicographic order
  of the character codes.
\<close>

definition byCodeUnit :: "string \<Rightarrow> string \<Rightarrow> int" where
  "byCodeUnit s t = (if s < t then - 1 else if s = t then 0 else 1)"

section \<open>Properties\<close>

subsection \<open>Rounding to binary64\<close>

lemma round_even_cases:
  "round_even y = \<lfloor>y\<rfloor> \<or> round_even y = \<lfloor>y\<rfloor> + 1"
  by (simp add: round_even_def Let_def)

lemma round_even_near: "\<bar>y - of_int m\<bar> < 1 / 2 \<Longrightarrow> round_even y = m"
proof -
  assume a: "\<bar>y - of_int m\<bar> < 1 / 2"
  show ?thesis
  proof (cases "of_int m \<le> y")
    case True
    with a have "\<lfloor>y\<rfloor> = m" by (intro floor_unique) linarith+
    with a True show ?thesis by (simp add: round_even_def Let_def)
  next
    case False
    with a have f: "\<lfloor>y\<rfloor> = m - 1" by (intro floor_unique) (simp, linarith+)
    with a False have "1 / 2 < y - of_int \<lfloor>y\<rfloor>" by simp
    with f show ?thesis by (simp add: round_even_def Let_def)
  qed
qed

lemma round_even_of_int [simp]: "round_even (of_int n) = n"
  by (rule round_even_near) simp

lemma round_even_error: "\<bar>of_int (round_even y) - y\<bar> \<le> 1 / 2"
proof -
  have "of_int \<lfloor>y\<rfloor> \<le> y" "y < of_int \<lfloor>y\<rfloor> + 1" by linarith+
  then show ?thesis
    by (auto simp: round_even_def Let_def abs_le_iff; linarith)
qed

lemma round_even_le_int: "y \<le> of_int n \<Longrightarrow> round_even y \<le> n"
proof -
  assume a: "y \<le> of_int n"
  show ?thesis
  proof (cases "y = of_int n")
    case True then show ?thesis by simp
  next
    case False
    with a have "y < of_int n" by simp
    then have "\<lfloor>y\<rfloor> < n" by (simp add: floor_less_iff)
    with round_even_cases [of y] show ?thesis by auto
  qed
qed

lemma round_even_ge_int: "of_int n \<le> y \<Longrightarrow> n \<le> round_even y"
proof -
  assume "of_int n \<le> y"
  then have "n \<le> \<lfloor>y\<rfloor>" by (simp add: le_floor_iff)
  with round_even_cases [of y] show ?thesis by auto
qed

lemma round_even_mono: "y \<le> z \<Longrightarrow> round_even y \<le> round_even z"
proof -
  assume a: "y \<le> z"
  then have f: "\<lfloor>y\<rfloor> \<le> \<lfloor>z\<rfloor>" by (rule floor_mono)
  show ?thesis
  proof (cases "\<lfloor>y\<rfloor> = \<lfloor>z\<rfloor>")
    case True
    with a show ?thesis
      by (auto simp: round_even_def Let_def)
  next
    case False
    with f have "\<lfloor>y\<rfloor> + 1 \<le> \<lfloor>z\<rfloor>" by simp
    with round_even_cases [of y] round_even_cases [of z] show ?thesis by auto
  qed
qed

lemma round_even_uminus: "round_even (- y) = - round_even y"
proof (cases "y = of_int \<lfloor>y\<rfloor>")
  case True
  then obtain n where "y = of_int n" ..
  then show ?thesis
    by (simp add: round_even_of_int [of "- n", simplified])
next
  case False
  have b: "of_int \<lfloor>y\<rfloor> \<le> y" "y < of_int \<lfloor>y\<rfloor> + 1" by linarith+
  with False have lt: "of_int \<lfloor>y\<rfloor> < y" by linarith
  have f: "\<lfloor>- y\<rfloor> = - \<lfloor>y\<rfloor> - 1"
  proof (rule floor_unique)
    show "of_int (- \<lfloor>y\<rfloor> - 1) \<le> - y"
      unfolding of_int_diff of_int_minus of_int_1 using b by linarith
    show "- y < of_int (- \<lfloor>y\<rfloor> - 1) + 1"
      unfolding of_int_diff of_int_minus of_int_1 using lt by linarith
  qed
  have r: "- y - of_int \<lfloor>- y\<rfloor> = 1 - (y - of_int \<lfloor>y\<rfloor>)"
    by (simp add: f)
  show ?thesis
    unfolding round_even_def Let_def r
    unfolding f
    by (auto simp: not_less)
qed

lemma quantum_pos: "0 < quantum x"
  by (simp add: quantum_def)

lemma quantum_uminus: "quantum (- x) = quantum x"
  by (simp add: quantum_def)

lemma two_powr_int: "0 \<le> n \<Longrightarrow> (2::real) powr of_int n = of_int (2 ^ nat n)"
proof -
  assume "0 \<le> n"
  then have "(2::real) powr of_int n = 2 powr real (nat n)" by simp
  also have "\<dots> = 2 ^ nat n" by (simp add: powr_realpow)
  finally show ?thesis by simp
qed

lemma expo_bounds:
  assumes "x \<noteq> 0"
  shows "2 powr of_int \<lfloor>log 2 \<bar>x\<bar>\<rfloor> \<le> \<bar>x\<bar>" "\<bar>x\<bar> < 2 powr (of_int \<lfloor>log 2 \<bar>x\<bar>\<rfloor> + 1)"
proof -
  from assms have p: "0 < \<bar>x\<bar>" by simp
  have "of_int \<lfloor>log 2 \<bar>x\<bar>\<rfloor> \<le> log 2 \<bar>x\<bar>" by simp
  then show "2 powr of_int \<lfloor>log 2 \<bar>x\<bar>\<rfloor> \<le> \<bar>x\<bar>"
    using p by (simp add: powr_le_iff)
  have "log 2 \<bar>x\<bar> < of_int \<lfloor>log 2 \<bar>x\<bar>\<rfloor> + 1" by linarith
  then show "\<bar>x\<bar> < 2 powr (of_int \<lfloor>log 2 \<bar>x\<bar>\<rfloor> + 1)"
    using p by (simp add: less_powr_iff)
qed

lemma expo_le:
  assumes "x \<noteq> 0" "\<bar>x\<bar> < 2 powr of_int n"
  shows "\<lfloor>log 2 \<bar>x\<bar>\<rfloor> < n"
proof -
  from assms have "log 2 \<bar>x\<bar> < of_int n"
    by (simp add: log_less_iff)
  then show ?thesis by (simp add: floor_less_iff)
qed

lemma expo_ge:
  assumes "2 powr of_int n \<le> \<bar>x\<bar>"
  shows "n \<le> \<lfloor>log 2 \<bar>x\<bar>\<rfloor>"
proof -
  have "0 < (2::real) powr of_int n" by simp
  with assms have p: "0 < \<bar>x\<bar>" by linarith
  with assms have "of_int n \<le> log 2 \<bar>x\<bar>"
    by (simp add: le_log_iff)
  then show ?thesis by (simp add: le_floor_iff)
qed

lemma binary64_zero [simp]: "binary64 0 = 0"
  by (simp add: binary64_def)

lemma binary64_uminus: "binary64 (- x) = - binary64 x"
  by (simp add: binary64_def quantum_uminus round_even_uminus)

lemma binary64_nonneg: "0 \<le> x \<Longrightarrow> 0 \<le> binary64 x"
proof -
  assume "0 \<le> x"
  then have "of_int 0 \<le> x / quantum x" using quantum_pos [of x] by simp
  then have "0 \<le> round_even (x / quantum x)" by (rule round_even_ge_int)
  then show ?thesis using quantum_pos [of x] by (simp add: binary64_def)
qed

lemma binary64_nonpos: "x \<le> 0 \<Longrightarrow> binary64 x \<le> 0"
  using binary64_nonneg [of "- x"] by (simp add: binary64_uminus)

lemma binary64_exact:
  assumes x: "x = of_int m * 2 powr of_int k" and m: "\<bar>m\<bar> < 2 ^ 53" and k: "- 1074 \<le> k"
  shows "binary64 x = x"
proof (cases "x = 0")
  case True then show ?thesis by simp
next
  case False
  let ?K = "max (\<lfloor>log 2 \<bar>x\<bar>\<rfloor> - 52) (- 1074)"
  have "\<bar>x\<bar> = of_int \<bar>m\<bar> * 2 powr of_int k"
    by (simp add: x abs_mult)
  also have "\<dots> < 2 ^ 53 * 2 powr of_int k"
  proof -
    from m have "(of_int \<bar>m\<bar> :: real) < of_int (2 ^ 53)" by (simp only: of_int_less_iff)
    then show ?thesis by simp
  qed
  also have "\<dots> = 2 powr of_int (53 + k)"
    by (simp add: powr_add powr_realpow [symmetric])
  finally have "\<lfloor>log 2 \<bar>x\<bar>\<rfloor> < 53 + k"
    using False by (intro expo_le)
  with k have K: "?K \<le> k" by simp
  have "x / 2 powr of_int ?K = of_int m * 2 powr (of_int k - of_int ?K)"
    by (simp add: x powr_diff)
  also have "\<dots> = of_int m * 2 powr of_int (k - ?K)" by simp
  also have "\<dots> = of_int m * of_int (2 ^ nat (k - ?K))"
    using K by (subst two_powr_int) simp_all
  also have "\<dots> = of_int (m * 2 ^ nat (k - ?K))" by simp
  finally have i: "x / quantum x = of_int (m * 2 ^ nat (k - ?K))"
    by (simp add: quantum_def)
  have "binary64 x = of_int (round_even (x / quantum x)) * quantum x"
    using False by (simp add: binary64_def)
  also have "\<dots> = x / quantum x * quantum x"
    unfolding i round_even_of_int ..
  also have "\<dots> = x" using quantum_pos [of x] by simp
  finally show ?thesis .
qed

lemma binary64_of_int: "\<bar>n\<bar> < 2 ^ 53 \<Longrightarrow> binary64 (of_int n) = of_int n"
  using binary64_exact [of "of_int n" n 0] by simp

lemma binary64_error_quantum: "\<bar>binary64 x - x\<bar> \<le> quantum x / 2"
proof (cases "x = 0")
  case True then show ?thesis using quantum_pos [of 0] by simp
next
  case False
  have "\<bar>binary64 x - x\<bar> = \<bar>of_int (round_even (x / quantum x)) - x / quantum x\<bar> * quantum x"
  proof -
    have "binary64 x - x = (of_int (round_even (x / quantum x)) - x / quantum x) * quantum x"
      using False quantum_pos [of x] by (simp add: binary64_def algebra_simps)
    then show ?thesis using quantum_pos [of x] by (simp add: abs_mult)
  qed
  also have "\<dots> \<le> 1 / 2 * quantum x"
    using round_even_error [of "x / quantum x"] quantum_pos [of x]
    by (intro mult_right_mono) simp_all
  finally show ?thesis by simp
qed

lemma binary64_mono_pos:
  assumes x: "0 < x" and xy: "x \<le> y"
  shows "binary64 x \<le> binary64 y"
proof -
  let ?ex = "\<lfloor>log 2 \<bar>x\<bar>\<rfloor>" and ?ey = "\<lfloor>log 2 \<bar>y\<bar>\<rfloor>"
  let ?Kx = "max (?ex - 52) (- 1074)" and ?Ky = "max (?ey - 52) (- 1074)"
  from x xy have y: "0 < y" by simp
  from x y have nz: "x \<noteq> 0" "y \<noteq> 0" by simp_all
  have fx: "binary64 x = of_int (round_even (x / quantum x)) * quantum x"
    and fy: "binary64 y = of_int (round_even (y / quantum y)) * quantum y"
    using nz by (simp_all add: binary64_def)
  have qx: "quantum x = 2 powr of_int ?Kx" and qy: "quantum y = 2 powr of_int ?Ky"
    by (simp_all add: quantum_def)
  from x xy have "log 2 \<bar>x\<bar> \<le> log 2 \<bar>y\<bar>" by simp
  then have e: "?ex \<le> ?ey" by (rule floor_mono)
  then have K: "?Kx \<le> ?Ky" by simp
  show ?thesis
  proof (cases "?Kx = ?Ky")
    case True
    then have q: "quantum y = quantum x" by (simp add: quantum_def)
    from xy quantum_pos [of x] have "x / quantum x \<le> y / quantum x"
      by (simp add: divide_right_mono)
    then have "round_even (x / quantum x) \<le> round_even (y / quantum x)"
      by (rule round_even_mono)
    then have "(of_int (round_even (x / quantum x)) :: real) \<le> of_int (round_even (y / quantum x))"
      by simp
    then show ?thesis
      unfolding fx fy q using quantum_pos [of x] by (simp add: mult_right_mono)
  next
    case False
    with K have lt: "?Kx < ?Ky" by linarith
    have Ky: "?Ky = ?ey - 52" and exy: "?ex + 1 \<le> ?ey"
      using lt e unfolding max_def by (auto split: if_splits)
    have "2 powr of_int ?ey \<le> \<bar>y\<bar>" using nz by (intro expo_bounds)
    then have "2 powr of_int ?ey / quantum y \<le> y / quantum y"
      using y quantum_pos [of y] by (simp add: divide_right_mono)
    moreover have "2 powr of_int ?ey / quantum y = of_int (2 ^ 52)"
    proof -
      have "2 powr of_int ?ey / quantum y = 2 powr (of_int ?ey - of_int ?Ky)"
        by (simp add: qy powr_diff)
      also have "\<dots> = 2 powr of_int 52" unfolding Ky by simp
      also have "\<dots> = of_int (2 ^ 52)" by (subst two_powr_int) simp_all
      finally show ?thesis .
    qed
    ultimately have "of_int (2 ^ 52) \<le> y / quantum y" by simp
    then have "2 ^ 52 \<le> round_even (y / quantum y)" by (rule round_even_ge_int)
    then have "(of_int (2 ^ 52) :: real) \<le> of_int (round_even (y / quantum y))"
      by (simp only: of_int_le_iff)
    then have "of_int (2 ^ 52) * quantum y \<le> binary64 y"
      unfolding fy using quantum_pos [of y] by (simp add: mult_right_mono)
    moreover have "of_int (2 ^ 52) * quantum y = 2 powr of_int ?ey"
    proof -
      have "(of_int (2 ^ 52) :: real) = 2 powr of_int 52" by (subst two_powr_int) simp_all
      then have "of_int (2 ^ 52) * quantum y = 2 powr (of_int 52 + of_int ?Ky)"
        by (simp add: qy powr_add)
      also have "\<dots> = 2 powr of_int ?ey" unfolding Ky by simp
      finally show ?thesis .
    qed
    ultimately have low: "2 powr of_int ?ey \<le> binary64 y" by simp
    have xb: "x < 2 powr (of_int ?ex + 1)" using expo_bounds(2) [OF nz(1)] x by simp
    have up: "binary64 x \<le> 2 powr (of_int ?ex + 1)"
    proof (cases "0 \<le> ?ex + 1 - ?Kx")
      case True
      have "x / quantum x \<le> 2 powr (of_int ?ex + 1) / quantum x"
        using xb quantum_pos [of x] by (simp add: divide_right_mono)
      moreover have "2 powr (of_int ?ex + 1) / quantum x = of_int (2 ^ nat (?ex + 1 - ?Kx))"
      proof -
        have "2 powr (of_int ?ex + 1) / quantum x = 2 powr (of_int ?ex + 1 - of_int ?Kx)"
          by (simp add: qx powr_diff)
        also have "\<dots> = 2 powr of_int (?ex + 1 - ?Kx)" by simp
        also have "\<dots> = of_int (2 ^ nat (?ex + 1 - ?Kx))"
          using True by (rule two_powr_int)
        finally show ?thesis .
      qed
      ultimately have "x / quantum x \<le> of_int (2 ^ nat (?ex + 1 - ?Kx))" by simp
      then have "round_even (x / quantum x) \<le> 2 ^ nat (?ex + 1 - ?Kx)"
        by (rule round_even_le_int)
      then have "(of_int (round_even (x / quantum x)) :: real) \<le> of_int (2 ^ nat (?ex + 1 - ?Kx))"
        by (simp only: of_int_le_iff)
      then have "binary64 x \<le> of_int (2 ^ nat (?ex + 1 - ?Kx)) * quantum x"
        unfolding fx using quantum_pos [of x] by (simp add: mult_right_mono)
      also have "\<dots> = 2 powr of_int (?ex + 1 - ?Kx) * quantum x"
        using True by (simp only: two_powr_int)
      also have "\<dots> = 2 powr (of_int (?ex + 1 - ?Kx) + of_int ?Kx)"
        by (simp only: qx powr_add)
      also have "\<dots> = 2 powr (of_int ?ex + 1)" by simp
      finally show ?thesis .
    next
      case False
      then have neg: "?ex + 1 - ?Kx \<le> - 1" by simp
      have "x / quantum x < 2 powr (of_int ?ex + 1) / quantum x"
        using xb quantum_pos [of x] by (simp add: divide_strict_right_mono)
      also have "\<dots> = 2 powr of_int (?ex + 1 - ?Kx)"
        by (simp add: qx powr_diff)
      also have "\<dots> \<le> 2 powr of_int (- 1)"
        using neg by (intro powr_mono) simp_all
      also have "\<dots> = 1 / 2" by (simp add: powr_minus_divide)
      finally have "x / quantum x < 1 / 2" .
      moreover have "0 < x / quantum x" using x quantum_pos [of x] by simp
      ultimately have "\<bar>x / quantum x - of_int 0\<bar> < 1 / 2" by simp
      then have "round_even (x / quantum x) = 0" by (rule round_even_near)
      then show ?thesis unfolding fx by simp
    qed
    have "(2::real) powr (of_int ?ex + 1) \<le> 2 powr of_int ?ey"
    proof -
      from exy have "(of_int ?ex + 1 :: real) \<le> of_int ?ey"
        by (metis of_int_1 of_int_add of_int_le_iff)
      then show ?thesis by (intro powr_mono) simp_all
    qed
    with up low show ?thesis by linarith
  qed
qed

lemma binary64_mono: "x \<le> y \<Longrightarrow> binary64 x \<le> binary64 y"
proof -
  assume xy: "x \<le> y"
  consider "0 < x" | "x \<le> 0" "0 \<le> y" | "y < 0" by linarith
  then show ?thesis
  proof cases
    case 1
    with xy show ?thesis by (intro binary64_mono_pos)
  next
    case 2
    then have "binary64 x \<le> 0" "0 \<le> binary64 y"
      by (simp_all add: binary64_nonpos binary64_nonneg)
    then show ?thesis by simp
  next
    case 3
    with xy have "binary64 (- y) \<le> binary64 (- x)" by (intro binary64_mono_pos) simp_all
    then show ?thesis by (simp add: binary64_uminus)
  qed
qed

lemma round_even_tie:
  assumes "\<bar>y - of_int m\<bar> \<le> 1 / 2" and "even m"
  shows "round_even y = m"
proof -
  consider "\<bar>y - of_int m\<bar> < 1 / 2" | "y = of_int m + 1 / 2" | "y = of_int m - 1 / 2"
    using assms(1) by linarith
  then show ?thesis
  proof cases
    case 1
    then show ?thesis by (rule round_even_near)
  next
    case 2
    then have "\<lfloor>y\<rfloor> = m" by (intro floor_unique) simp_all
    with 2 assms(2) show ?thesis by (simp add: round_even_def Let_def)
  next
    case 3
    then have f: "\<lfloor>y\<rfloor> = m - 1" by (intro floor_unique) simp_all
    with 3 have "y - of_int \<lfloor>y\<rfloor> = 1 / 2" by simp
    with f assms(2) show ?thesis by (simp add: round_even_def Let_def)
  qed
qed

text \<open>
  Evaluation: a real that, scaled by \<open>2 ^ j\<close>, lies between \<open>2 ^ 52\<close> and \<open>2 ^ 53\<close>
  has the quantum \<open>1 / 2 ^ j\<close>.
\<close>

lemma binary64_scaled:
  fixes j :: nat
  assumes lo: "2 ^ 52 \<le> x * 2 ^ j" and hi: "x * 2 ^ j < 2 ^ 53" and j: "j \<le> 1074"
  shows "binary64 x = of_int (round_even (x * 2 ^ j)) / 2 ^ j"
proof -
  have p: "(2::real) powr (- real j) = 1 / 2 ^ j"
    by (simp add: powr_minus_divide powr_realpow)
  have pos: "0 < x"
  proof -
    have "(0::real) < 2 ^ 52" by simp
    with lo have "0 < x * 2 ^ j" by linarith
    then show ?thesis by (simp add: zero_less_mult_iff)
  qed
  have "(2::real) powr of_int (52 - int j) = 2 ^ 52 / 2 ^ j"
    by (simp add: powr_diff powr_realpow [symmetric])
  also have "\<dots> \<le> x" using lo by (simp add: pos_divide_le_eq)
  finally have l: "2 powr of_int (52 - int j) \<le> \<bar>x\<bar>" using pos by simp
  have "x < 2 ^ 53 / 2 ^ j" using hi by (simp add: pos_less_divide_eq)
  also have "\<dots> = (2::real) powr of_int (53 - int j)"
    by (simp add: powr_diff powr_realpow [symmetric])
  finally have h: "\<bar>x\<bar> < 2 powr of_int (53 - int j)" using pos by simp
  have "52 - int j \<le> \<lfloor>log 2 \<bar>x\<bar>\<rfloor>" using l by (rule expo_ge)
  moreover have "\<lfloor>log 2 \<bar>x\<bar>\<rfloor> < 53 - int j" using pos h by (intro expo_le) simp_all
  ultimately have "\<lfloor>log 2 \<bar>x\<bar>\<rfloor> = 52 - int j" by simp
  with j have "max (\<lfloor>log 2 \<bar>x\<bar>\<rfloor> - 52) (- 1074) = - int j" by simp
  then have q: "quantum x = 1 / 2 ^ j"
    by (simp add: quantum_def p)
  show ?thesis
    using pos by (simp add: binary64_def q)
qed

lemma binary64_eval_tie:
  fixes m :: int and j :: nat
  assumes m: "2 ^ 52 < m" "m < 2 ^ 53" and j: "j \<le> 1074"
    and near: "\<bar>x * 2 ^ j - of_int m\<bar> \<le> 1 / 2" and tie: "\<bar>x * 2 ^ j - of_int m\<bar> < 1 / 2 \<or> even m"
  shows "binary64 x = of_int m / 2 ^ j"
proof -
  from m have mr: "(of_int (2 ^ 52 + 1) :: real) \<le> of_int m" "(of_int m :: real) \<le> of_int (2 ^ 53 - 1)"
    by (simp_all only: of_int_le_iff)
  from near have b: "of_int m - 1 / 2 \<le> x * 2 ^ j" "x * 2 ^ j \<le> of_int m + 1 / 2"
    by linarith+
  with mr have lo: "2 ^ 52 \<le> x * 2 ^ j" and hi: "x * 2 ^ j < 2 ^ 53"
    by simp_all
  have "round_even (x * 2 ^ j) = m"
    using tie near by (auto intro: round_even_near round_even_tie)
  then show ?thesis
    using binary64_scaled [OF lo hi j] by simp
qed

lemma binary64_eval_above:
  fixes m :: int and j :: nat
  assumes m: "2 ^ 52 \<le> m" "m < 2 ^ 53" and j: "j \<le> 1074"
    and lo: "of_int m \<le> x * 2 ^ j" and hi: "x * 2 ^ j < of_int m + 1 / 2"
  shows "binary64 x = of_int m / 2 ^ j"
proof -
  from m have mr: "(of_int (2 ^ 52) :: real) \<le> of_int m" "(of_int m :: real) \<le> of_int (2 ^ 53 - 1)"
    by (simp_all only: of_int_le_iff)
  with lo hi have l: "2 ^ 52 \<le> x * 2 ^ j" and h: "x * 2 ^ j < 2 ^ 53"
    by simp_all
  have "\<bar>x * 2 ^ j - of_int m\<bar> < 1 / 2" using lo hi by linarith
  then have "round_even (x * 2 ^ j) = m" by (rule round_even_near)
  then show ?thesis
    using binary64_scaled [OF l h j] by simp
qed

lemma binary64_eval:
  fixes m :: int and j :: nat
  assumes m: "2 ^ 52 < m" "m < 2 ^ 53" and j: "j \<le> 1074"
    and near: "\<bar>x * 2 ^ j - of_int m\<bar> < 1 / 2"
  shows "binary64 x = of_int m / 2 ^ j"
  using near by (intro binary64_eval_tie [OF m j]) simp_all

lemma binary64_eval_neg:
  fixes m :: int and j :: nat
  assumes m: "2 ^ 52 < m" "m < 2 ^ 53" and j: "j \<le> 1074"
    and near: "\<bar>x * 2 ^ j + of_int m\<bar> \<le> 1 / 2" and tie: "\<bar>x * 2 ^ j + of_int m\<bar> < 1 / 2 \<or> even m"
  shows "binary64 x = - (of_int m / 2 ^ j)"
proof -
  have e: "\<bar>- x * 2 ^ j - of_int m\<bar> = \<bar>x * 2 ^ j + of_int m\<bar>"
    by (simp add: abs_if)
  have "binary64 (- x) = of_int m / 2 ^ j"
    using near tie by (intro binary64_eval_tie [OF m j]) (simp_all only: e)
  then show ?thesis by (simp add: binary64_uminus)
qed

lemma binary64_eval_above_neg:
  fixes m :: int and j :: nat
  assumes m: "2 ^ 52 \<le> m" "m < 2 ^ 53" and j: "j \<le> 1074"
    and lo: "of_int m \<le> - x * 2 ^ j" and hi: "- x * 2 ^ j < of_int m + 1 / 2"
  shows "binary64 x = - (of_int m / 2 ^ j)"
proof -
  have "binary64 (- x) = of_int m / 2 ^ j"
    using lo hi by (intro binary64_eval_above [OF m j])
  then show ?thesis by (simp add: binary64_uminus)
qed

lemma binary64_error_bounded:
  assumes b: "\<bar>x\<bar> < 2 powr of_int n" and n: "- 1021 \<le> n"
  shows "\<bar>binary64 x - x\<bar> \<le> 2 powr of_int (n - 54)"
proof (cases "x = 0")
  case True then show ?thesis by simp
next
  case False
  with b have "\<lfloor>log 2 \<bar>x\<bar>\<rfloor> < n" by (intro expo_le)
  with n have "max (\<lfloor>log 2 \<bar>x\<bar>\<rfloor> - 52) (- 1074) \<le> n - 53" by simp
  then have "(of_int (max (\<lfloor>log 2 \<bar>x\<bar>\<rfloor> - 52) (- 1074)) :: real) \<le> of_int (n - 53)"
    by (simp only: of_int_le_iff)
  then have "quantum x \<le> 2 powr of_int (n - 53)"
    unfolding quantum_def by (intro powr_mono) simp_all
  moreover have "2 powr of_int (n - 53) / 2 = (2::real) powr of_int (n - 54)"
  proof -
    have "(2::real) powr of_int (n - 54) = 2 powr (of_int (n - 53) - 1)" by simp
    also have "\<dots> = 2 powr of_int (n - 53) / 2" by (simp only: powr_diff powr_one)
    finally show ?thesis by simp
  qed
  ultimately show ?thesis
    using binary64_error_quantum [of x] by linarith
qed

lemma binary64_sqrt_eval:
  fixes m :: int and j :: nat
  assumes m: "2 ^ 52 < m" "m < 2 ^ 53" and j: "j \<le> 1074"
    and lo: "(2 * of_int m - 1)\<^sup>2 < s * 4 ^ (j + 1)"
    and hi: "s * 4 ^ (j + 1) < (2 * of_int m + 1)\<^sup>2"
  shows "binary64 (sqrt s) = of_int m / 2 ^ j"
proof (rule binary64_eval [OF m j])
  have mp: "(0::real) < 2 * of_int m - 1"
  proof -
    from m(1) have "(of_int (2 ^ 52) :: real) < of_int m" by (simp only: of_int_less_iff)
    then show ?thesis by simp
  qed
  have e: "2 * (sqrt s * 2 ^ j) = sqrt (s * 4 ^ (j + 1))"
  proof -
    have "(4::real) ^ (j + 1) = (2 ^ (j + 1))\<^sup>2"
      by (simp add: power2_eq_square power_mult_distrib [symmetric])
    then have "sqrt (s * 4 ^ (j + 1)) = sqrt s * 2 ^ (j + 1)"
      by (simp add: real_sqrt_mult)
    then show ?thesis by simp
  qed
  from lo have "2 * of_int m - 1 < sqrt (s * 4 ^ (j + 1))"
    by (rule real_less_rsqrt)
  moreover from hi mp have "sqrt (s * 4 ^ (j + 1)) < 2 * of_int m + 1"
    by (intro real_less_lsqrt) simp_all
  ultimately show "\<bar>sqrt s * 2 ^ j - of_int m\<bar> < 1 / 2"
    unfolding e [symmetric] by linarith
qed


lemma binary64_dyadic:
  fixes m :: int and j :: nat
  assumes "\<bar>m\<bar> < 2 ^ 53" "j \<le> 1074"
  shows "binary64 (of_int m / 2 ^ j) = of_int m / 2 ^ j"
proof -
  have "(of_int m / 2 ^ j :: real) = of_int m * 2 powr of_int (- int j)"
    by (simp add: powr_minus_divide powr_realpow)
  then show ?thesis
    using assms by (intro binary64_exact [of _ m "- int j"]) simp_all
qed

lemma binary64_exact_eval:
  fixes m :: int and j :: nat
  assumes "\<bar>m\<bar> < 2 ^ 53" "j \<le> 1074" "x * 2 ^ j = of_int m"
  shows "binary64 x = x"
proof -
  from assms(3) have "x = of_int m / 2 ^ j" by (simp add: field_simps)
  with binary64_dyadic [OF assms(1,2)] show ?thesis by simp
qed

lemma binary64_numeral_exact [simp]:
  "binary64 1 = 1" "binary64 99 = 99" "binary64 100 = 100" "binary64 (- 1) = - 1"
  using binary64_of_int [of 1] binary64_of_int [of 99] binary64_of_int [of 100]
    binary64_of_int [of "- 1"]
  by simp_all

lemma binary64_of_nat: "n < 2 ^ 53 \<Longrightarrow> binary64 (real n) = real n"
  using binary64_of_int [of "int n"] by simp

text \<open>Rounding within a bounded range, for magnitudes below \<open>2 ^ n\<close>.\<close>

lemma binary64_error_pow:
  fixes n :: nat
  assumes "\<bar>x\<bar> < 2 ^ n"
  shows "\<bar>binary64 x - x\<bar> \<le> 2 ^ n / 2 ^ 54"
proof -
  have "\<bar>binary64 x - x\<bar> \<le> 2 powr of_int (int n - 54)"
    using assms by (intro binary64_error_bounded) (simp_all add: powr_realpow)
  also have "\<dots> = 2 ^ n / 2 ^ 54"
    by (simp add: powr_diff powr_realpow [symmetric])
  finally show ?thesis .
qed

lemma length_METRICS: "length METRICS = 11"
  by (simp add: METRICS_def)

lemma Math_round_round: "Math_round x = round x"
  by (simp add: Math_round_def round_def)

lemma Math_round_nonneg_iff: "0 \<le> Math_round x \<longleftrightarrow> - 1 / 2 \<le> x"
  by (auto simp: Math_round_def le_floor_iff)

lemma Math_round_le_iff: "Math_round x \<le> n \<longleftrightarrow> x < real_of_int n + 1 / 2"
  by (auto simp: Math_round_def floor_le_iff)

lemma Math_round_close:
  assumes "\<bar>x - y\<bar> < 1"
  shows "\<bar>Math_round x - round y\<bar> \<le> 1"
proof -
  have a: "\<lfloor>y + 1 / 2 + 1\<rfloor> = \<lfloor>y + 1 / 2\<rfloor> + 1" "\<lfloor>x + 1 / 2 + 1\<rfloor> = \<lfloor>x + 1 / 2\<rfloor> + 1"
    using floor_add_int [of "y + 1 / 2" 1] floor_add_int [of "x + 1 / 2" 1] by simp_all
  have "\<lfloor>x + 1 / 2\<rfloor> \<le> \<lfloor>y + 1 / 2 + 1\<rfloor>" using assms by (intro floor_mono) linarith
  moreover have "\<lfloor>y + 1 / 2\<rfloor> \<le> \<lfloor>x + 1 / 2 + 1\<rfloor>" using assms by (intro floor_mono) linarith
  ultimately have "\<lfloor>x + 1 / 2\<rfloor> \<le> \<lfloor>y + 1 / 2\<rfloor> + 1" "\<lfloor>y + 1 / 2\<rfloor> \<le> \<lfloor>x + 1 / 2\<rfloor> + 1"
    unfolding a by simp_all
  then show ?thesis
    unfolding Math_round_def round_def by linarith
qed

lemma or0_metric_value: "or0 (metrics p m) = metric_value p m"
  by (simp add: or0_def metric_value_def split: option.splits)

subsection \<open>Sums accumulated in binary64\<close>

lemma accumulate_snoc:
  "fold (\<lambda>x s. js_add s (g x)) (xs @ [x]) acc = js_add (fold (\<lambda>x s. js_add s (g x)) xs acc) (g x)"
  by simp

lemma accumulate_nonneg:
  "\<forall>x\<in>set xs. 0 \<le> g x \<Longrightarrow> 0 \<le> acc \<Longrightarrow> 0 \<le> fold (\<lambda>x s. js_add s (g x)) xs acc"
  by (induction xs arbitrary: acc) (simp_all add: js_add_def binary64_nonneg)

lemma accumulate_le:
  assumes "\<forall>x\<in>set xs. g x \<le> 0" and "acc \<le> c" and "binary64 c = c"
  shows "fold (\<lambda>x s. js_add s (g x)) xs acc \<le> c"
  using assms
proof (induction xs arbitrary: acc)
  case Nil
  then show ?case by simp
next
  case (Cons x xs)
  from Cons.prems have "acc + g x \<le> c" by simp
  then have "binary64 (acc + g x) \<le> binary64 c" by (rule binary64_mono)
  with Cons.prems have "js_add acc (g x) \<le> c" by (simp add: js_add_def)
  with Cons show ?case by simp
qed

lemma accumulate_zero:
  "\<forall>x\<in>set xs. g x = 0 \<Longrightarrow> fold (\<lambda>x s. js_add s (g x)) xs 0 = 0"
  by (induction xs) (simp_all add: js_add_def)

lemma accumulate_error:
  fixes g f :: "'a \<Rightarrow> real" and n :: nat
  assumes "\<forall>x\<in>set xs. 0 \<le> g x \<and> g x \<le> B \<and> \<bar>g x - f x\<bar> \<le> e"
    and "\<forall>k\<le>length xs. binary64 (real k * B) = real k * B"
    and "real (length xs) * B < 2 ^ n" and "0 \<le> B"
  shows "0 \<le> fold (\<lambda>x s. js_add s (g x)) xs 0
       \<and> fold (\<lambda>x s. js_add s (g x)) xs 0 \<le> real (length xs) * B
       \<and> \<bar>fold (\<lambda>x s. js_add s (g x)) xs 0 - (\<Sum>x\<leftarrow>xs. f x)\<bar>
            \<le> real (length xs) * (e + 2 ^ n / 2 ^ 54)"
  using assms
proof (induction xs rule: rev_induct)
  case Nil
  then show ?case by simp
next
  case (snoc x xs)
  let ?F = "fold (\<lambda>x s. js_add s (g x)) xs 0"
  let ?k = "length xs"
  have B: "0 \<le> B" by (rule snoc.prems(4))
  have r: "real ?k * B < 2 ^ n"
  proof -
    have "real ?k * B \<le> real (length (xs @ [x])) * B" using B by (simp add: mult_right_mono)
    with snoc.prems(3) show ?thesis by linarith
  qed
  have ih: "0 \<le> ?F" "?F \<le> real ?k * B" "\<bar>?F - (\<Sum>x\<leftarrow>xs. f x)\<bar> \<le> real ?k * (e + 2 ^ n / 2 ^ 54)"
    using snoc.IH snoc.prems(1,2) r B by simp_all
  from snoc.prems(1) have x: "0 \<le> g x" "g x \<le> B" "\<bar>g x - f x\<bar> \<le> e" by simp_all
  have new: "fold (\<lambda>x s. js_add s (g x)) (xs @ [x]) 0 = binary64 (?F + g x)"
    by (simp add: js_add_def)
  have lo: "0 \<le> ?F + g x" using ih(1) x(1) by simp
  have hi: "?F + g x \<le> real (Suc ?k) * B" using ih(2) x(2) by (simp add: algebra_simps)
  have ex: "binary64 (real (Suc ?k) * B) = real (Suc ?k) * B"
    using snoc.prems(2) by (metis length_append_singleton order_refl)
  have 1: "0 \<le> binary64 (?F + g x)" using lo by (rule binary64_nonneg)
  have 2: "binary64 (?F + g x) \<le> real (Suc ?k) * B"
    using binary64_mono [OF hi] ex by simp
  have "\<bar>?F + g x\<bar> < 2 ^ n" using lo hi snoc.prems(3) by simp
  then have err: "\<bar>binary64 (?F + g x) - (?F + g x)\<bar> \<le> 2 ^ n / 2 ^ 54"
    by (rule binary64_error_pow)
  have "\<bar>binary64 (?F + g x) - ((\<Sum>x\<leftarrow>xs. f x) + f x)\<bar>
        \<le> \<bar>binary64 (?F + g x) - (?F + g x)\<bar> + \<bar>?F - (\<Sum>x\<leftarrow>xs. f x)\<bar> + \<bar>g x - f x\<bar>"
    by linarith
  also have "\<dots> \<le> 2 ^ n / 2 ^ 54 + real ?k * (e + 2 ^ n / 2 ^ 54) + e"
    using err ih(3) x(3) by linarith
  also have "\<dots> = real (Suc ?k) * (e + 2 ^ n / 2 ^ 54)"
    by (simp add: algebra_simps)
  finally have 3: "\<bar>binary64 (?F + g x) - ((\<Sum>x\<leftarrow>xs. f x) + f x)\<bar>
        \<le> real (Suc ?k) * (e + 2 ^ n / 2 ^ 54)" .
  from 1 2 3 show ?case
    unfolding new by simp
qed

subsection \<open>The loops of the scoring functions\<close>

lemma calcRoleFit_accumulate:
  "calcRoleFit p t =
     Math_round (min (fold (\<lambda>x s. js_add s (js_mul (or0 (metrics p (fst x))) (snd x))) t 0) 99)"
proof -
  have "(\<lambda>(attr, weight) score. js_add score (js_mul (or0 (metrics p attr)) weight))
        = (\<lambda>x s. js_add s (js_mul (or0 (metrics p (fst x))) (snd x)))"
    by (simp add: fun_eq_iff split: prod.splits)
  then show ?thesis
    by (simp add: calcRoleFit_def)
qed

lemma computeOverall_accumulate:
  "computeOverall p =
     Math_round (js_div (fold (\<lambda>m s. js_add s (or0 (metrics p m))) METRICS 0) (real (length METRICS)))"
  by (simp add: computeOverall_def foldl_conv_fold fold_map o_def)

lemma euclideanSimilarity_on_accumulate:
  "euclideanSimilarity_on catalog a b =
     Math_round (js_mul (js_sub 1 (js_div
       (Math_sqrt (fold (\<lambda>m s. js_add s (Math_pow2 (js_sub (or0 (metrics a m)) (or0 (metrics b m)))))
                     catalog 0))
       (Math_sqrt (js_mul (js_mul (real (length catalog)) 100) 100)))) 100)"
  by (simp add: euclideanSimilarity_on_def Let_def)

subsection \<open>Similarity: symmetry and range\<close>

lemma js_sub_swap: "js_sub x y = - js_sub y x"
proof -
  have "binary64 (x - y) = binary64 (- (y - x))" by simp
  then show ?thesis by (simp only: js_sub_def binary64_uminus)
qed

lemma Math_pow2_uminus: "Math_pow2 (- x) = Math_pow2 x"
  by (simp add: Math_pow2_def)

lemma Math_pow2_nonneg: "0 \<le> Math_pow2 x"
  by (simp add: Math_pow2_def binary64_nonneg)

lemma squared_difference_swap:
  "Math_pow2 (js_sub x y) = Math_pow2 (js_sub y x)"
  using js_sub_swap [of x y] by (simp add: Math_pow2_uminus)

lemma euclideanSimilarity_on_commute:
  "euclideanSimilarity_on catalog a b = euclideanSimilarity_on catalog b a"
proof -
  have "(\<lambda>m s. js_add s (Math_pow2 (js_sub (or0 (metrics a m)) (or0 (metrics b m)))))
        = (\<lambda>m s. js_add s (Math_pow2 (js_sub (or0 (metrics b m)) (or0 (metrics a m)))))"
    by (simp add: fun_eq_iff squared_difference_swap)
  then show ?thesis
    by (simp only: euclideanSimilarity_on_accumulate)
qed

lemma euclideanSimilarity_on_self: "euclideanSimilarity_on catalog a a = 100"
proof -
  have "fold (\<lambda>m s. js_add s (Math_pow2 (js_sub (or0 (metrics a m)) (or0 (metrics a m))))) catalog 0 = 0"
    by (rule accumulate_zero) (simp add: js_sub_def Math_pow2_def)
  then show ?thesis
    by (simp add: euclideanSimilarity_on_accumulate Math_sqrt_def js_div_def js_sub_def
        js_mul_def Math_round_def)
qed

lemma maxDist_arg:
  assumes "length catalog \<le> 1000"
  shows "js_mul (js_mul (real (length catalog)) 100) 100 = real (length catalog) * 10000"
proof -
  let ?N = "length catalog"
  have 1: "real ?N * 100 = real (?N * 100)" by simp
  have "?N * 100 < 2 ^ 53" using assms by simp
  then have a: "binary64 (real (?N * 100)) = real (?N * 100)" by (rule binary64_of_nat)
  have 2: "real (?N * 100) * 100 = real (?N * 10000)" by simp
  have "?N * 10000 < 2 ^ 53" using assms by simp
  then have b: "binary64 (real (?N * 10000)) = real (?N * 10000)" by (rule binary64_of_nat)
  show ?thesis
    unfolding js_mul_def 1 a 2 b by simp
qed

lemma similarity_at_most_100: "euclideanSimilarity_on catalog a b \<le> 100"
proof -
  let ?S = "fold (\<lambda>m s. js_add s (Math_pow2 (js_sub (or0 (metrics a m)) (or0 (metrics b m))))) catalog 0"
  let ?M = "Math_sqrt (js_mul (js_mul (real (length catalog)) 100) 100)"
  have "0 \<le> ?S" by (rule accumulate_nonneg) (simp_all add: Math_pow2_nonneg)
  then have d: "0 \<le> Math_sqrt ?S" by (simp add: Math_sqrt_def binary64_nonneg)
  have "0 \<le> js_mul (js_mul (real (length catalog)) 100) 100"
    by (simp add: js_mul_def binary64_nonneg)
  then have m: "0 \<le> ?M" by (simp add: Math_sqrt_def binary64_nonneg)
  from d m have "0 \<le> Math_sqrt ?S / ?M" by simp
  then have "0 \<le> js_div (Math_sqrt ?S) ?M" by (simp add: js_div_def binary64_nonneg)
  then have "1 - js_div (Math_sqrt ?S) ?M \<le> 1" by simp
  then have "binary64 (1 - js_div (Math_sqrt ?S) ?M) \<le> binary64 1" by (rule binary64_mono)
  then have "js_sub 1 (js_div (Math_sqrt ?S) ?M) * 100 \<le> 100" by (simp add: js_sub_def)
  then have "binary64 (js_sub 1 (js_div (Math_sqrt ?S) ?M) * 100) \<le> binary64 100"
    by (rule binary64_mono)
  then have "js_mul (js_sub 1 (js_div (Math_sqrt ?S) ?M)) 100 < real_of_int 100 + 1 / 2"
    by (simp add: js_mul_def)
  then show ?thesis
    by (simp only: euclideanSimilarity_on_accumulate Math_round_le_iff)
qed

lemma squared_difference_error:
  assumes u: "0 \<le> u" "u \<le> 100" and v: "0 \<le> v" "v \<le> 100"
  shows "0 \<le> Math_pow2 (js_sub u v) \<and> Math_pow2 (js_sub u v) \<le> 10000
         \<and> \<bar>Math_pow2 (js_sub u v) - (u - v)\<^sup>2\<bar> \<le> 1 / 2 ^ 38"
proof -
  let ?d = "js_sub u v"
  have r: "- 100 \<le> u - v" "u - v \<le> 100" using u v by simp_all
  have "binary64 (- 100) \<le> binary64 (u - v)" "binary64 (u - v) \<le> binary64 100"
    using r by (simp_all only: binary64_mono)
  then have d: "- 100 \<le> ?d" "?d \<le> 100"
    by (simp_all add: js_sub_def binary64_uminus)
  have "\<bar>u - v\<bar> < 2 ^ 7" using r by simp
  then have "\<bar>binary64 (u - v) - (u - v)\<bar> \<le> 2 ^ 7 / 2 ^ 54" by (rule binary64_error_pow)
  then have de: "\<bar>?d - (u - v)\<bar> \<le> 1 / 2 ^ 47" by (simp add: js_sub_def)
  have sq: "?d * ?d \<le> 10000"
  proof -
    have "\<bar>?d\<bar> \<le> 100" using d by simp
    then have "\<bar>?d\<bar> * \<bar>?d\<bar> \<le> 100 * 100" by (intro mult_mono) simp_all
    then show ?thesis by simp
  qed
  have nn: "0 \<le> ?d * ?d" by simp
  have "binary64 (?d * ?d) \<le> binary64 10000" using sq by (rule binary64_mono)
  moreover have "binary64 10000 = 10000" using binary64_of_int [of 10000] by simp
  ultimately have q: "Math_pow2 ?d \<le> 10000" by (simp add: Math_pow2_def)
  have "\<bar>?d * ?d\<bar> < 2 ^ 14" using sq nn by simp
  then have "\<bar>binary64 (?d * ?d) - ?d * ?d\<bar> \<le> 2 ^ 14 / 2 ^ 54" by (rule binary64_error_pow)
  then have qe: "\<bar>Math_pow2 ?d - ?d * ?d\<bar> \<le> 1 / 2 ^ 40" by (simp add: Math_pow2_def)
  have "\<bar>?d * ?d - (u - v)\<^sup>2\<bar> = \<bar>?d - (u - v)\<bar> * \<bar>?d + (u - v)\<bar>"
    by (simp add: abs_mult [symmetric] power2_eq_square algebra_simps)
  also have "\<dots> \<le> 1 / 2 ^ 47 * 200"
    using de d r by (intro mult_mono) simp_all
  finally have "\<bar>?d * ?d - (u - v)\<^sup>2\<bar> \<le> 200 / 2 ^ 47" by simp
  with qe have "\<bar>Math_pow2 ?d - (u - v)\<^sup>2\<bar> \<le> 1 / 2 ^ 40 + 200 / 2 ^ 47" by linarith
  also have "\<dots> \<le> 1 / 2 ^ 38" by simp
  finally show ?thesis using q Math_pow2_nonneg [of ?d] by simp
qed

lemma similarity_sum:
  assumes N: "length catalog \<le> 1000"
    and a: "\<forall>m\<in>set catalog. 0 \<le> or0 (metrics a m) \<and> or0 (metrics a m) \<le> 100"
    and b: "\<forall>m\<in>set catalog. 0 \<le> or0 (metrics b m) \<and> or0 (metrics b m) \<le> 100"
  shows "0 \<le> fold (\<lambda>m s. js_add s (Math_pow2 (js_sub (or0 (metrics a m)) (or0 (metrics b m))))) catalog 0
     \<and> fold (\<lambda>m s. js_add s (Math_pow2 (js_sub (or0 (metrics a m)) (or0 (metrics b m))))) catalog 0
          \<le> real (length catalog) * 10000
     \<and> \<bar>fold (\<lambda>m s. js_add s (Math_pow2 (js_sub (or0 (metrics a m)) (or0 (metrics b m))))) catalog 0
          - (\<Sum>m\<leftarrow>catalog. (or0 (metrics a m) - or0 (metrics b m))\<^sup>2)\<bar>
          \<le> real (length catalog) * (1 / 2 ^ 38 + 2 ^ 24 / 2 ^ 54)"
proof (rule accumulate_error)
  show "\<forall>m\<in>set catalog.
       0 \<le> Math_pow2 (js_sub (or0 (metrics a m)) (or0 (metrics b m)))
       \<and> Math_pow2 (js_sub (or0 (metrics a m)) (or0 (metrics b m))) \<le> 10000
       \<and> \<bar>Math_pow2 (js_sub (or0 (metrics a m)) (or0 (metrics b m)))
            - (or0 (metrics a m) - or0 (metrics b m))\<^sup>2\<bar> \<le> 1 / 2 ^ 38"
  proof
    fix m assume "m \<in> set catalog"
    with a b have "0 \<le> or0 (metrics a m)" "or0 (metrics a m) \<le> 100"
      "0 \<le> or0 (metrics b m)" "or0 (metrics b m) \<le> 100" by simp_all
    then show "0 \<le> Math_pow2 (js_sub (or0 (metrics a m)) (or0 (metrics b m)))
       \<and> Math_pow2 (js_sub (or0 (metrics a m)) (or0 (metrics b m))) \<le> 10000
       \<and> \<bar>Math_pow2 (js_sub (or0 (metrics a m)) (or0 (metrics b m)))
            - (or0 (metrics a m) - or0 (metrics b m))\<^sup>2\<bar> \<le> 1 / 2 ^ 38"
      by (rule squared_difference_error)
  qed
  show "\<forall>k\<le>length catalog. binary64 (real k * 10000) = real k * 10000"
  proof (intro allI impI)
    fix k assume "k \<le> length catalog"
    with N have "k * 10000 < 2 ^ 53" by simp
    then have "binary64 (real (k * 10000)) = real (k * 10000)" by (rule binary64_of_nat)
    then show "binary64 (real k * 10000) = real k * 10000" by simp
  qed
  show "real (length catalog) * 10000 < 2 ^ 24"
  proof -
    have "real (length catalog) * 10000 \<le> 1000 * 10000" using N by simp
    then show ?thesis by simp
  qed
  show "(0::real) \<le> 10000" by simp
qed

lemma sum_list_bounds:
  fixes f :: "'a \<Rightarrow> real"
  assumes "\<forall>x\<in>set xs. lo \<le> f x \<and> f x \<le> hi"
  shows "real (length xs) * lo \<le> sum_list (map f xs)
         \<and> sum_list (map f xs) \<le> real (length xs) * hi"
  using assms by (induction xs) (auto simp: algebra_simps)

lemma sqrt_difference:
  assumes "0 \<le> x" "0 \<le> y"
  shows "\<bar>sqrt x - sqrt y\<bar> \<le> sqrt \<bar>x - y\<bar>"
proof -
  have *: "sqrt u \<le> sqrt v + sqrt \<bar>u - v\<bar>" if "0 \<le> v" "v \<le> u" for u v :: real
  proof -
    have "sqrt u = sqrt (v + (u - v))" by simp
    also have "\<dots> \<le> sqrt v + sqrt (u - v)" using that by (intro sqrt_add_le_add_sqrt) simp_all
    finally show ?thesis using that by simp
  qed
  show ?thesis
  proof (cases "y \<le> x")
    case True
    with *[of y x] assms have "sqrt x \<le> sqrt y + sqrt \<bar>x - y\<bar>" by simp
    moreover have "sqrt y \<le> sqrt x" using True by simp
    ultimately show ?thesis by simp
  next
    case False
    then have "x \<le> y" by simp
    with *[of x y] assms have "sqrt y \<le> sqrt x + sqrt \<bar>y - x\<bar>" by simp
    moreover have "sqrt x \<le> sqrt y" using \<open>x \<le> y\<close> by simp
    moreover have "\<bar>y - x\<bar> = \<bar>x - y\<bar>" by simp
    ultimately show ?thesis by simp
  qed
qed

lemma sqrt_less_4096: "0 \<le> x \<Longrightarrow> x \<le> 10000000 \<Longrightarrow> sqrt x < 2 ^ 12"
proof -
  assume "0 \<le> x" "x \<le> 10000000"
  then have "x < (2 ^ 12)\<^sup>2" by simp
  then show ?thesis by (intro real_less_lsqrt) simp_all
qed

lemma similarity_analysis:
  fixes a :: "'a player_scheme" and b :: "'b player_scheme"
  assumes N: "length catalog \<le> 1000"
    and a: "\<forall>m\<in>set catalog. 0 \<le> or0 (metrics a m) \<and> or0 (metrics a m) \<le> 100"
    and b: "\<forall>m\<in>set catalog. 0 \<le> or0 (metrics b m) \<and> or0 (metrics b m) \<le> 100"
  defines "S' \<equiv> fold (\<lambda>m s. js_add s (Math_pow2 (js_sub (or0 (metrics a m)) (or0 (metrics b m))))) catalog 0"
    and "S \<equiv> (\<Sum>m\<leftarrow>catalog. (or0 (metrics a m) - or0 (metrics b m))\<^sup>2)"
    and "M \<equiv> sqrt (real (length catalog) * 10000)"
  defines "X' \<equiv> binary64 (binary64 (1 - binary64 (binary64 (sqrt S') / binary64 M)) * 100)"
    and "X \<equiv> (1 - sqrt S / M) * 100"
  shows "0 \<le> X'" and "1 \<le> length catalog \<Longrightarrow> \<bar>X' - X\<bar> \<le> 1 / 500"
proof -
  let ?N = "real (length catalog)"
  from similarity_sum [OF N a b]
  have S': "0 \<le> S'" "S' \<le> ?N * 10000" and SS: "\<bar>S' - S\<bar> \<le> ?N * (1 / 2 ^ 38 + 2 ^ 24 / 2 ^ 54)"
    unfolding S'_def S_def by simp_all
  have NN: "?N \<le> 1000" using N by simp
  have "?N * (1 / 2 ^ 38 + 2 ^ 24 / 2 ^ 54) \<le> 1000 * (1 / 2 ^ 38 + 2 ^ 24 / 2 ^ 54)"
    using NN by (intro mult_right_mono) simp_all
  also have "\<dots> \<le> 1 / 2 ^ 18" by simp
  finally have Se: "\<bar>S' - S\<bar> \<le> 1 / 2 ^ 18" using SS by linarith
  have S: "0 \<le> S" "S \<le> ?N * 10000"
  proof -
    have "\<forall>m\<in>set catalog. 0 \<le> (or0 (metrics a m) - or0 (metrics b m))\<^sup>2
            \<and> (or0 (metrics a m) - or0 (metrics b m))\<^sup>2 \<le> 10000"
    proof
      fix m assume "m \<in> set catalog"
      with a b have "\<bar>or0 (metrics a m) - or0 (metrics b m)\<bar> \<le> \<bar>100 :: real\<bar>" by fastforce
      then have "(or0 (metrics a m) - or0 (metrics b m))\<^sup>2 \<le> 100\<^sup>2"
        by (simp only: abs_le_square_iff)
      then show "0 \<le> (or0 (metrics a m) - or0 (metrics b m))\<^sup>2
            \<and> (or0 (metrics a m) - or0 (metrics b m))\<^sup>2 \<le> 10000" by simp
    qed
    from sum_list_bounds [OF this] show "0 \<le> S" "S \<le> ?N * 10000"
      unfolding S_def by simp_all
  qed
  have arg: "?N * 10000 \<le> 10000000" using NN by simp
  have "\<bar>sqrt S' - sqrt S\<bar> \<le> sqrt \<bar>S' - S\<bar>" using S'(1) S(1) by (rule sqrt_difference)
  also have "\<dots> \<le> sqrt (1 / 2 ^ 18)" using Se by simp
  also have "\<dots> = 1 / 2 ^ 9" by (rule real_sqrt_unique) (simp_all add: power2_eq_square)
  finally have d1: "\<bar>sqrt S' - sqrt S\<bar> \<le> 1 / 2 ^ 9" .
  have "sqrt S' < 2 ^ 12" using S' arg by (intro sqrt_less_4096) simp_all
  moreover have s0: "0 \<le> sqrt S'" using S'(1) by simp
  ultimately have "\<bar>sqrt S'\<bar> < 2 ^ 12" by simp
  then have d2: "\<bar>binary64 (sqrt S') - sqrt S'\<bar> \<le> 2 ^ 12 / 2 ^ 54" by (rule binary64_error_pow)
  have dist': "0 \<le> binary64 (sqrt S')" using s0 by (rule binary64_nonneg)
  have dist: "0 \<le> sqrt S" "sqrt S \<le> M" using S unfolding M_def by simp_all
  have "\<bar>binary64 (sqrt S') - sqrt S\<bar> \<le> \<bar>binary64 (sqrt S') - sqrt S'\<bar> + \<bar>sqrt S' - sqrt S\<bar>"
    by linarith
  also have "\<dots> \<le> 2 ^ 12 / 2 ^ 54 + 1 / 2 ^ 9" using d1 d2 by (intro add_mono)
  also have "\<dots> = 1 / 2 ^ 9 + 1 / 2 ^ 42" by simp
  finally have de: "\<bar>binary64 (sqrt S') - sqrt S\<bar> \<le> 1 / 2 ^ 9 + 1 / 2 ^ 42" .
  have M0: "0 \<le> M" unfolding M_def by simp
  have "sqrt S' \<le> M" unfolding M_def using S'(2) by simp
  then have le: "binary64 (sqrt S') \<le> binary64 M" by (rule binary64_mono)
  have M'0: "0 \<le> binary64 M" using M0 by (rule binary64_nonneg)
  have ratio: "0 \<le> binary64 (sqrt S') / binary64 M" "binary64 (sqrt S') / binary64 M \<le> 1"
    using dist' M'0 le by (auto simp: divide_le_eq_1)
  let ?q = "binary64 (sqrt S') / binary64 M"
  let ?r = "binary64 ?q"
  have r: "0 \<le> ?r" "?r \<le> 1"
    using binary64_nonneg [OF ratio(1)] binary64_mono [OF ratio(2)] by simp_all
  have "\<bar>?q\<bar> < 2 ^ 1" using ratio by simp
  then have re: "\<bar>?r - ?q\<bar> \<le> 2 ^ 1 / 2 ^ 54" by (rule binary64_error_pow)
  let ?t = "binary64 (1 - ?r)"
  have t: "0 \<le> ?t" "?t \<le> 1"
  proof -
    have "0 \<le> 1 - ?r" "1 - ?r \<le> 1" using r by simp_all
    then show "0 \<le> ?t" "?t \<le> 1"
      using binary64_nonneg [of "1 - ?r"] binary64_mono [of "1 - ?r" 1] by simp_all
  qed
  have "\<bar>1 - ?r\<bar> < 2 ^ 1" using r by simp
  then have te: "\<bar>?t - (1 - ?r)\<bar> \<le> 2 ^ 1 / 2 ^ 54" by (rule binary64_error_pow)
  have x: "0 \<le> ?t * 100" "?t * 100 \<le> 100" using t by simp_all
  then have "\<bar>?t * 100\<bar> < 2 ^ 7" by simp
  then have xe: "\<bar>binary64 (?t * 100) - ?t * 100\<bar> \<le> 2 ^ 7 / 2 ^ 54" by (rule binary64_error_pow)
  show "0 \<le> X'" unfolding X'_def using x(1) by (rule binary64_nonneg)
  show "\<bar>X' - X\<bar> \<le> 1 / 500" if "1 \<le> length catalog"
  proof -
    have "10000 \<le> ?N * 10000" using that by simp
    then have "sqrt 10000 \<le> M" unfolding M_def by (simp only: real_sqrt_le_iff)
    moreover have "sqrt 10000 = 100" by (rule real_sqrt_unique) simp_all
    ultimately have M100: "100 \<le> M" by simp
    then have "binary64 100 \<le> binary64 M" by (rule binary64_mono)
    then have M'100: "100 \<le> binary64 M" by simp
    have "M < 2 ^ 12" unfolding M_def using arg by (intro sqrt_less_4096) simp_all
    with M0 have "\<bar>M\<bar> < 2 ^ 12" by simp
    then have Me: "\<bar>binary64 M - M\<bar> \<le> 2 ^ 12 / 2 ^ 54" by (rule binary64_error_pow)
    have q1: "\<bar>?q - sqrt S / binary64 M\<bar> \<le> (1 / 2 ^ 9 + 1 / 2 ^ 42) / 100"
    proof -
      have "?q - sqrt S / binary64 M = (binary64 (sqrt S') - sqrt S) / binary64 M"
        by (simp add: diff_divide_distrib)
      then have "\<bar>?q - sqrt S / binary64 M\<bar> = \<bar>binary64 (sqrt S') - sqrt S\<bar> / binary64 M"
        using M'0 by simp
      also have "\<dots> \<le> (1 / 2 ^ 9 + 1 / 2 ^ 42) / 100"
        using de M'100 by (intro frac_le) simp_all
      finally show ?thesis .
    qed
    have q2: "\<bar>sqrt S / binary64 M - sqrt S / M\<bar> \<le> (1 / 2 ^ 42) / 100"
    proof -
      have "sqrt S / binary64 M - sqrt S / M = (sqrt S / M) * ((M - binary64 M) / binary64 M)"
        using M100 M'100 by (simp add: field_simps)
      then have "\<bar>sqrt S / binary64 M - sqrt S / M\<bar> = (sqrt S / M) * (\<bar>M - binary64 M\<bar> / binary64 M)"
        using dist(1) M100 M'100 by (simp add: abs_mult)
      also have "\<dots> \<le> 1 * ((1 / 2 ^ 42) / 100)"
      proof (intro mult_mono frac_le)
        show "sqrt S / M \<le> 1" using dist(2) M100 by (simp add: divide_le_eq_1)
        show "\<bar>M - binary64 M\<bar> \<le> 1 / 2 ^ 42" using Me by (simp add: abs_minus_commute)
      qed (use M'100 in simp_all)
      finally show ?thesis by simp
    qed
    have qe: "\<bar>?q - sqrt S / M\<bar> \<le> (1 / 2 ^ 9 + 1 / 2 ^ 42) / 100 + (1 / 2 ^ 42) / 100"
      using q1 q2 by linarith
    have "\<bar>?t - (1 - sqrt S / M)\<bar> \<le> \<bar>?t - (1 - ?r)\<bar> + \<bar>?r - ?q\<bar> + \<bar>?q - sqrt S / M\<bar>"
      by linarith
    also have "\<dots> \<le> 2 ^ 1 / 2 ^ 54 + 2 ^ 1 / 2 ^ 54
                     + ((1 / 2 ^ 9 + 1 / 2 ^ 42) / 100 + (1 / 2 ^ 42) / 100)"
      using te re qe by linarith
    also have "\<dots> \<le> 1 / 51000" by simp
    finally have tt: "\<bar>?t - (1 - sqrt S / M)\<bar> \<le> 1 / 51000" .
    have "X' - X = (binary64 (?t * 100) - ?t * 100) + (?t - (1 - sqrt S / M)) * 100"
      unfolding X'_def X_def by (simp add: algebra_simps)
    also have "\<bar>\<dots>\<bar> \<le> \<bar>binary64 (?t * 100) - ?t * 100\<bar> + \<bar>(?t - (1 - sqrt S / M)) * 100\<bar>"
      by (rule abs_triangle_ineq)
    finally have "\<bar>X' - X\<bar> \<le> \<bar>binary64 (?t * 100) - ?t * 100\<bar> + \<bar>?t - (1 - sqrt S / M)\<bar> * 100"
      unfolding abs_mult abs_numeral .
    also have "\<dots> \<le> 2 ^ 7 / 2 ^ 54 + 1 / 51000 * 100"
      using xe tt by (intro add_mono mult_right_mono) simp_all
    also have "\<dots> \<le> 1 / 500" by simp
    finally show ?thesis .
  qed
qed

lemma Math_round_within:
  assumes "\<bar>x - y\<bar> \<le> d" and "d < 1"
  shows "\<bar>Math_round x - round y\<bar> \<le> 1"
    and "round (y - d) = round (y + d) \<Longrightarrow> Math_round x = round y"
proof -
  from assms have "\<bar>x - y\<bar> < 1" by simp
  then show "\<bar>Math_round x - round y\<bar> \<le> 1" by (rule Math_round_close)
  assume e: "round (y - d) = round (y + d)"
  from assms(1) have "y - d \<le> x" "x \<le> y + d" by linarith+
  then have "round (y - d) \<le> round x" "round x \<le> round (y + d)" by (simp_all add: round_mono)
  moreover from assms(1) have "y - d \<le> y" "y \<le> y + d" by linarith+
  then have "round (y - d) \<le> round y" "round y \<le> round (y + d)" by (simp_all add: round_mono)
  ultimately show "Math_round x = round y" using e by (simp add: Math_round_round)
qed

lemma similarity_lower:
  assumes "length catalog \<le> 1000"
    and "\<forall>m\<in>set catalog. 0 \<le> or0 (metrics a m) \<and> or0 (metrics a m) \<le> 100"
    and "\<forall>m\<in>set catalog. 0 \<le> or0 (metrics b m) \<and> or0 (metrics b m) \<le> 100"
  shows "0 \<le> euclideanSimilarity_on catalog a b"
proof -
  have "- 1 / 2 \<le> js_mul (js_sub 1 (js_div
       (Math_sqrt (fold (\<lambda>m s. js_add s (Math_pow2 (js_sub (or0 (metrics a m)) (or0 (metrics b m)))))
                     catalog 0))
       (Math_sqrt (js_mul (js_mul (real (length catalog)) 100) 100)))) 100"
    using similarity_analysis(1) [OF assms]
    unfolding maxDist_arg [OF assms(1)]
    unfolding js_mul_def js_sub_def js_div_def Math_sqrt_def
    by simp
  then show ?thesis
    by (simp only: euclideanSimilarity_on_accumulate Math_round_nonneg_iff)
qed

lemma similarity_accuracy:
  assumes N: "1 \<le> length catalog" "length catalog \<le> 1000"
    and a: "\<forall>m\<in>set catalog. 0 \<le> metric_value a m \<and> metric_value a m \<le> 100"
    and b: "\<forall>m\<in>set catalog. 0 \<le> metric_value b m \<and> metric_value b m \<le> 100"
  shows "\<bar>js_mul (js_sub 1 (js_div
       (Math_sqrt (fold (\<lambda>m s. js_add s (Math_pow2 (js_sub (or0 (metrics a m)) (or0 (metrics b m)))))
                     catalog 0))
       (Math_sqrt (js_mul (js_mul (real (length catalog)) 100) 100)))) 100
      - spec_similarity_score catalog a b\<bar> \<le> 1 / 500"
proof -
  have a': "\<forall>m\<in>set catalog. 0 \<le> or0 (metrics a m) \<and> or0 (metrics a m) \<le> 100"
    and b': "\<forall>m\<in>set catalog. 0 \<le> or0 (metrics b m) \<and> or0 (metrics b m) \<le> 100"
    using a b by (simp_all add: or0_metric_value)
  have s: "real (length catalog) * 100\<^sup>2 = real (length catalog) * 10000" by simp
  show ?thesis
    using similarity_analysis(2) [OF N(2) a' b' N(1)]
    unfolding maxDist_arg [OF N(2)]
    unfolding js_mul_def js_sub_def js_div_def Math_sqrt_def
      spec_similarity_score_def s or0_metric_value [symmetric]
    by simp
qed

subsection \<open>Role fit: the accumulated sum\<close>

lemma exact_hundreds: "k \<le> 11 \<Longrightarrow> binary64 (real k * 100) = real k * 100"
proof -
  assume "k \<le> 11"
  then have "k * 100 < 2 ^ 53" by simp
  then have "binary64 (real (k * 100)) = real (k * 100)" by (rule binary64_of_nat)
  then show ?thesis by simp
qed

lemma roleFit_sum:
  assumes v: "\<forall>(m, w)\<in>set t. 0 \<le> metric_value p m \<and> metric_value p m \<le> 100 \<and> 0 \<le> w \<and> w \<le> 1"
    and n: "length t \<le> 11"
  shows "\<bar>fold (\<lambda>x s. js_add s (js_mul (or0 (metrics p (fst x))) (snd x))) t 0
          - (\<Sum>(m, w)\<leftarrow>t. w * metric_value p m)\<bar> \<le> 1 / 2 ^ 39"
proof -
  let ?g = "\<lambda>x. js_mul (or0 (metrics p (fst x))) (snd x)"
  let ?f = "\<lambda>x. snd x * metric_value p (fst x)"
  have terms: "\<forall>x\<in>set t. 0 \<le> ?g x \<and> ?g x \<le> 100 \<and> \<bar>?g x - ?f x\<bar> \<le> 2 ^ 7 / 2 ^ 54"
  proof
    fix x assume "x \<in> set t"
    with v have b: "0 \<le> metric_value p (fst x)" "metric_value p (fst x) \<le> 100"
      "0 \<le> snd x" "snd x \<le> 1" by (cases x; force)+
    have lo: "0 \<le> metric_value p (fst x) * snd x" using b by simp
    have "metric_value p (fst x) * snd x \<le> 100 * 1" using b by (intro mult_mono) simp_all
    then have hi: "metric_value p (fst x) * snd x \<le> 100" by simp
    have 1: "0 \<le> ?g x" using lo by (simp add: js_mul_def or0_metric_value binary64_nonneg)
    have "binary64 (metric_value p (fst x) * snd x) \<le> binary64 100" using hi by (rule binary64_mono)
    then have 2: "?g x \<le> 100" by (simp add: js_mul_def or0_metric_value)
    have "\<bar>metric_value p (fst x) * snd x\<bar> < 2 ^ 7" using lo hi by simp
    then have "\<bar>binary64 (metric_value p (fst x) * snd x) - metric_value p (fst x) * snd x\<bar>
               \<le> 2 ^ 7 / 2 ^ 54" by (rule binary64_error_pow)
    then have 3: "\<bar>?g x - ?f x\<bar> \<le> 2 ^ 7 / 2 ^ 54"
      by (simp add: js_mul_def or0_metric_value mult.commute)
    from 1 2 3 show "0 \<le> ?g x \<and> ?g x \<le> 100 \<and> \<bar>?g x - ?f x\<bar> \<le> 2 ^ 7 / 2 ^ 54" by simp
  qed
  have ex: "\<forall>k\<le>length t. binary64 (real k * 100) = real k * 100"
    using n by (auto intro: exact_hundreds)
  have rg: "real (length t) * 100 < 2 ^ 11"
  proof -
    have "real (length t) * 100 \<le> 11 * 100" using n by simp
    then show ?thesis by simp
  qed
  from accumulate_error [of t ?g 100 ?f "2 ^ 7 / 2 ^ 54" 11, OF terms ex rg]
  have "\<bar>fold (\<lambda>x s. js_add s (?g x)) t 0 - (\<Sum>x\<leftarrow>t. ?f x)\<bar>
        \<le> real (length t) * (2 ^ 7 / 2 ^ 54 + 2 ^ 11 / 2 ^ 54)" by simp
  also have "\<dots> \<le> 11 * (2 ^ 7 / 2 ^ 54 + 2 ^ 11 / 2 ^ 54)"
    using n by (intro mult_right_mono) simp_all
  also have "\<dots> \<le> 1 / 2 ^ 39" by simp
  finally have "\<bar>fold (\<lambda>x s. js_add s (?g x)) t 0 - (\<Sum>x\<leftarrow>t. ?f x)\<bar> \<le> 1 / 2 ^ 39" .
  moreover have "(\<Sum>x\<leftarrow>t. ?f x) = (\<Sum>(m, w)\<leftarrow>t. w * metric_value p m)"
    by (simp add: case_prod_unfold)
  ultimately show ?thesis by simp
qed

lemma roleFit_accuracy:
  assumes "\<forall>(m, w)\<in>set t. 0 \<le> metric_value p m \<and> metric_value p m \<le> 100 \<and> 0 \<le> w \<and> w \<le> 1"
    and "length t \<le> 11"
  shows "\<bar>min (fold (\<lambda>x s. js_add s (js_mul (or0 (metrics p (fst x))) (snd x))) t 0) 99
          - spec_roleFit_score p t\<bar> \<le> 1 / 2 ^ 39"
  using roleFit_sum [OF assms] unfolding spec_roleFit_score_def by linarith

lemma roleFit_nonneg:
  assumes "\<forall>(m, w)\<in>set t. 0 \<le> metric_value p m * w"
  shows "0 \<le> calcRoleFit p t"
proof -
  have "0 \<le> fold (\<lambda>x s. js_add s (js_mul (or0 (metrics p (fst x))) (snd x))) t 0"
    using assms by (intro accumulate_nonneg)
      (auto simp: js_mul_def or0_metric_value binary64_nonneg split: prod.splits)
  then show ?thesis
    by (simp add: calcRoleFit_accumulate Math_round_nonneg_iff)
qed

lemma roleFit_at_most_99: "calcRoleFit p t \<le> 99"
  by (simp add: calcRoleFit_accumulate Math_round_le_iff)

lemma accumulate_le_minus_one:
  assumes "\<forall>x\<in>set xs. g x \<le> 0" and "\<exists>x\<in>set xs. g x \<le> - 1" and "acc \<le> 0"
  shows "fold (\<lambda>x s. js_add s (g x)) xs acc \<le> - 1"
  using assms
proof (induction xs arbitrary: acc)
  case Nil
  then show ?case by simp
next
  case (Cons x xs)
  show ?case
  proof (cases "g x \<le> - 1")
    case True
    with Cons.prems have "acc + g x \<le> - 1" by simp
    then have "binary64 (acc + g x) \<le> binary64 (- 1)" by (rule binary64_mono)
    then have "js_add acc (g x) \<le> - 1" by (simp add: js_add_def)
    moreover have "\<forall>y\<in>set xs. g y \<le> 0" using Cons.prems by simp
    ultimately have "fold (\<lambda>x s. js_add s (g x)) xs (js_add acc (g x)) \<le> - 1"
      by (intro accumulate_le) simp_all
    then show ?thesis by simp
  next
    case False
    with Cons.prems have ex: "\<exists>y\<in>set xs. g y \<le> - 1" by auto
    from Cons.prems have "acc + g x \<le> 0" by simp
    then have "binary64 (acc + g x) \<le> binary64 0" by (rule binary64_mono)
    then have "js_add acc (g x) \<le> 0" by (simp add: js_add_def)
    with Cons.IH [OF _ ex] Cons.prems show ?thesis by simp
  qed
qed

lemma roleFit_negative:
  assumes "\<forall>(m, w)\<in>set t. metric_value p m * w \<le> 0"
    and "\<exists>(m, w)\<in>set t. metric_value p m * w \<le> - 1"
  shows "calcRoleFit p t \<le> - 1"
proof -
  let ?g = "\<lambda>x. js_mul (or0 (metrics p (fst x))) (snd x)"
  have a: "\<forall>x\<in>set t. ?g x \<le> 0"
    using assms(1) by (auto simp: js_mul_def or0_metric_value binary64_nonpos split: prod.splits)
  from assms(2) obtain x where x: "x \<in> set t" "metric_value p (fst x) * snd x \<le> - 1"
    by (auto split: prod.splits)
  then have "binary64 (metric_value p (fst x) * snd x) \<le> binary64 (- 1)" by (intro binary64_mono)
  then have "?g x \<le> - 1" by (simp add: js_mul_def or0_metric_value)
  with x(1) have b: "\<exists>x\<in>set t. ?g x \<le> - 1" by blast
  have "fold (\<lambda>x s. js_add s (?g x)) t 0 \<le> - 1"
    using a b by (intro accumulate_le_minus_one) simp_all
  then have "min (fold (\<lambda>x s. js_add s (?g x)) t 0) 99 < real_of_int (- 1) + 1 / 2" by simp
  then show ?thesis
    by (simp only: calcRoleFit_accumulate Math_round_le_iff)
qed

subsection \<open>Overall rating: the accumulated mean\<close>

lemma overall_analysis:
  assumes "\<forall>m\<in>set METRICS. 0 \<le> metric_value p m \<and> metric_value p m \<le> 100"
  defines "q \<equiv> js_div (fold (\<lambda>m s. js_add s (or0 (metrics p m))) METRICS 0) (real (length METRICS))"
  shows "0 \<le> q" "q \<le> 100" "\<bar>q - spec_overall_score p\<bar> \<le> 1 / 2 ^ 42"
proof -
  let ?S' = "fold (\<lambda>m s. js_add s (or0 (metrics p m))) METRICS 0"
  let ?S = "\<Sum>m\<leftarrow>METRICS. metric_value p m"
  have terms: "\<forall>m\<in>set METRICS. 0 \<le> or0 (metrics p m) \<and> or0 (metrics p m) \<le> 100
                 \<and> \<bar>or0 (metrics p m) - metric_value p m\<bar> \<le> 0"
    using assms(1) by (simp add: or0_metric_value)
  have ex: "\<forall>k\<le>length METRICS. binary64 (real k * 100) = real k * 100"
    by (auto simp: length_METRICS intro: exact_hundreds)
  have rg: "real (length METRICS) * 100 < 2 ^ 11" by (simp add: length_METRICS)
  from accumulate_error [of METRICS "\<lambda>m. or0 (metrics p m)" 100 "\<lambda>m. metric_value p m" 0 11,
      OF terms ex rg]
  have S: "0 \<le> ?S'" "?S' \<le> 1100" "\<bar>?S' - ?S\<bar> \<le> 11 * (2 ^ 11 / 2 ^ 54)"
    by (simp_all add: length_METRICS)
  have d: "0 \<le> ?S' / 11" "?S' / 11 \<le> 100" using S by simp_all
  have q: "q = binary64 (?S' / 11)" by (simp add: q_def js_div_def length_METRICS)
  show "0 \<le> q" unfolding q using d(1) by (rule binary64_nonneg)
  show "q \<le> 100" unfolding q using binary64_mono [OF d(2)] by simp
  have "\<bar>?S' / 11\<bar> < 2 ^ 7" using d by simp
  then have e1: "\<bar>binary64 (?S' / 11) - ?S' / 11\<bar> \<le> 2 ^ 7 / 2 ^ 54" by (rule binary64_error_pow)
  have "\<bar>?S' / 11 - ?S / 11\<bar> = \<bar>?S' - ?S\<bar> / 11" by (simp add: diff_divide_distrib [symmetric])
  also have "\<dots> \<le> (11 * (2 ^ 11 / 2 ^ 54)) / 11" using S(3) by (intro divide_right_mono) simp_all
  finally have e2: "\<bar>?S' / 11 - ?S / 11\<bar> \<le> 2 ^ 11 / 2 ^ 54" by simp
  have "\<bar>q - ?S / 11\<bar> \<le> \<bar>binary64 (?S' / 11) - ?S' / 11\<bar> + \<bar>?S' / 11 - ?S / 11\<bar>"
    unfolding q by linarith
  also have "\<dots> \<le> 2 ^ 7 / 2 ^ 54 + 2 ^ 11 / 2 ^ 54" using e1 e2 by (intro add_mono)
  also have "\<dots> \<le> 1 / 2 ^ 42" by simp
  finally show "\<bar>q - spec_overall_score p\<bar> \<le> 1 / 2 ^ 42"
    by (simp add: spec_overall_score_def length_METRICS)
qed

lemma overall_blank:
  assumes "\<forall>m\<in>set METRICS. metrics p m = None"
  shows "computeOverall p = 0"
proof -
  have "fold (\<lambda>m s. js_add s (or0 (metrics p m))) METRICS 0 = 0"
    using assms by (intro accumulate_zero) (simp add: or0_def)
  then show ?thesis
    by (simp add: computeOverall_accumulate js_div_def Math_round_def)
qed

subsection \<open>Agreement with the exact formulas\<close>

lemma similarity_agrees:
  assumes "1 \<le> length catalog" "length catalog \<le> 1000"
    and "\<forall>m\<in>set catalog. 0 \<le> metric_value a m \<and> metric_value a m \<le> 100"
    and "\<forall>m\<in>set catalog. 0 \<le> metric_value b m \<and> metric_value b m \<le> 100"
  shows "\<bar>euclideanSimilarity_on catalog a b - spec_similarity catalog a b\<bar> \<le> 1"
    and "round (spec_similarity_score catalog a b - 1 / 500)
           = round (spec_similarity_score catalog a b + 1 / 500)
         \<Longrightarrow> euclideanSimilarity_on catalog a b = spec_similarity catalog a b"
  unfolding euclideanSimilarity_on_accumulate spec_similarity_def
  using Math_round_within [OF similarity_accuracy [OF assms]] by simp_all

lemma roleFit_agrees:
  assumes "\<forall>(m, w)\<in>set t. 0 \<le> metric_value p m \<and> metric_value p m \<le> 100 \<and> 0 \<le> w \<and> w \<le> 1"
    and "length t \<le> 11"
  shows "\<bar>calcRoleFit p t - spec_roleFit p t\<bar> \<le> 1"
    and "round (spec_roleFit_score p t - 1 / 2 ^ 39) = round (spec_roleFit_score p t + 1 / 2 ^ 39)
         \<Longrightarrow> calcRoleFit p t = spec_roleFit p t"
  unfolding calcRoleFit_accumulate spec_roleFit_def
  using Math_round_within [OF roleFit_accuracy [OF assms]] by simp_all

lemma overall_agrees:
  assumes "\<forall>m\<in>set METRICS. 0 \<le> metric_value p m \<and> metric_value p m \<le> 100"
  shows "\<bar>computeOverall p - spec_overall p\<bar> \<le> 1"
    and "round (spec_overall_score p - 1 / 2 ^ 42) = round (spec_overall_score p + 1 / 2 ^ 42)
         \<Longrightarrow> computeOverall p = spec_overall p"
    and "0 \<le> computeOverall p" and "computeOverall p \<le> 100"
proof -
  note q = overall_analysis [OF assms]
  show "\<bar>computeOverall p - spec_overall p\<bar> \<le> 1"
    and "round (spec_overall_score p - 1 / 2 ^ 42) = round (spec_overall_score p + 1 / 2 ^ 42)
         \<Longrightarrow> computeOverall p = spec_overall p"
    unfolding computeOverall_accumulate spec_overall_def
    using Math_round_within [OF q(3)] by simp_all
  show "0 \<le> computeOverall p"
    unfolding computeOverall_accumulate Math_round_nonneg_iff using q(1) by simp
  show "computeOverall p \<le> 100"
    unfolding computeOverall_accumulate Math_round_le_iff using q(2) by simp
qed

subsection \<open>Evaluation at the example records\<close>

lemma Math_round_eqI: "of_int n - 1 / 2 \<le> x \<Longrightarrow> x < of_int n + 1 / 2 \<Longrightarrow> Math_round x = n"
  unfolding Math_round_def by (rule floor_unique) simp_all

lemma round_eqI: "of_int n - 1 / 2 \<le> x \<Longrightarrow> x < of_int n + 1 / 2 \<Longrightarrow> round x = n"
  for x :: real
  unfolding round_def by (rule floor_unique) simp_all

lemma flat_profile_fields:
  "player_id (flat_profile i n pos a v) = i"
  "position (flat_profile i n pos a v) = pos"
  "age (flat_profile i n pos a v) = a"
  "name (flat_profile i n pos a v) = n"
  by (simp_all add: flat_profile_def)

lemma metrics_flat_profile:
  "metrics (flat_profile i n pos a v) m = (if m \<in> set METRICS then Some v else None)"
  by (simp add: flat_profile_def METRICS_def)

lemma or0_flat_profile:
  "m \<in> set METRICS \<Longrightarrow> or0 (metrics (flat_profile i n pos a v) m) = v"
  by (simp add: metrics_flat_profile or0_def)

lemma or0_blank_profile: "or0 (metrics (blank_profile i n pos a) m) = 0"
  by (simp add: blank_profile_def or0_def)

lemma metric_value_flat_profile:
  "m \<in> set METRICS \<Longrightarrow> metric_value (flat_profile i n pos a v) m = v"
  by (simp add: metrics_flat_profile metric_value_def)

lemma metric_value_blank_profile: "metric_value (blank_profile i n pos a) m = 0"
  by (simp add: blank_profile_def metric_value_def)

lemma sum_list_const_on:
  "\<forall>x\<in>set xs. f x = c \<Longrightarrow> (\<Sum>x\<leftarrow>xs. f x) = real (length xs) * c"
  by (induction xs) (simp_all add: algebra_simps)

text \<open>The weights of \<open>Poacher\<close> as binary64 values.\<close>

lemma Poacher_eq:
  "Poacher = [(''shot_conversion'', binary64 0.30), (''xg_p90'', binary64 0.25),
              (''shots_p90'', binary64 0.20), (''aerial_win_rate'', binary64 0.15),
              (''press_success'', binary64 0.10)]"
  by (simp add: Poacher_def ROLES_def)

lemma Poacher_weights:
  "binary64 0.30 = 5404319552844595 / 2 ^ 54"
  "binary64 0.25 = 1 / 2 ^ 2"
  "binary64 0.20 = 3602879701896397 / 2 ^ 54"
  "binary64 0.15 = 5404319552844595 / 2 ^ 55"
  "binary64 0.10 = 3602879701896397 / 2 ^ 55"
proof -

  show "binary64 0.30 = 5404319552844595 / 2 ^ 54"
    using binary64_eval [of 5404319552844595 54 "0.30"] by simp
  show "binary64 0.25 = 1 / 2 ^ 2"
    using binary64_exact_eval [of "1" 2 "0.25"] by simp
  show "binary64 0.20 = 3602879701896397 / 2 ^ 54"
    using binary64_eval [of 7205759403792794 55 "0.20"] by simp
  show "binary64 0.15 = 5404319552844595 / 2 ^ 55"
    using binary64_eval [of 5404319552844595 55 "0.15"] by simp
  show "binary64 0.10 = 3602879701896397 / 2 ^ 55"
    using binary64_eval [of 7205759403792794 56 "0.10"] by simp
qed

lemma Poacher_values:
  "Poacher = [(''shot_conversion'', 5404319552844595 / 2 ^ 54), (''xg_p90'', 1 / 2 ^ 2),
              (''shots_p90'', 3602879701896397 / 2 ^ 54), (''aerial_win_rate'', 5404319552844595 / 2 ^ 55),
              (''press_success'', 3602879701896397 / 2 ^ 55)]"
  unfolding Poacher_eq Poacher_weights by (rule refl)

text \<open>The loops of the scoring functions, written out for the catalog and for \<open>Poacher\<close>.\<close>

lemma fold_METRICS:
  "fold (\<lambda>m s. f s) METRICS z = f (f (f (f (f (f (f (f (f (f (f z))))))))))"
  by (simp add: METRICS_def)

lemma similarity_uniform:
  assumes "\<forall>m\<in>set METRICS. or0 (metrics a m) = u \<and> or0 (metrics b m) = v"
  shows "euclideanSimilarity a b =
     Math_round (js_mul (js_sub 1 (js_div
       (Math_sqrt (fold (\<lambda>m s. js_add s (Math_pow2 (js_sub u v))) METRICS 0))
       (Math_sqrt 110000))) 100)"
proof -
  have "fold (\<lambda>m s. js_add s (Math_pow2 (js_sub (or0 (metrics a m)) (or0 (metrics b m))))) METRICS 0
        = fold (\<lambda>m s. js_add s (Math_pow2 (js_sub u v))) METRICS 0"
    using assms by (intro fold_cong) simp_all
  moreover have "js_mul (js_mul (real (length METRICS)) 100) 100 = 110000"
    using maxDist_arg [of METRICS] by (simp add: length_METRICS)
  ultimately show ?thesis
    by (simp only: euclideanSimilarity_def euclideanSimilarity_on_accumulate)
qed

lemma calcRoleFit_Poacher:
  "calcRoleFit p Poacher =
     Math_round (min
       (js_add (js_add (js_add (js_add (js_add 0
          (js_mul (or0 (metrics p ''shot_conversion'')) (binary64 0.30)))
          (js_mul (or0 (metrics p ''xg_p90'')) (binary64 0.25)))
          (js_mul (or0 (metrics p ''shots_p90'')) (binary64 0.20)))
          (js_mul (or0 (metrics p ''aerial_win_rate'')) (binary64 0.15)))
          (js_mul (or0 (metrics p ''press_success'')) (binary64 0.10))) 99)"
  by (simp add: calcRoleFit_def Poacher_eq)

lemma computeOverall_METRICS:
  "computeOverall p =
     Math_round (js_div
       (js_add (js_add (js_add (js_add (js_add (js_add (js_add (js_add (js_add (js_add (js_add 0
          (or0 (metrics p ''shots_p90'')))
          (or0 (metrics p ''xg_p90'')))
          (or0 (metrics p ''shot_conversion'')))
          (or0 (metrics p ''prog_passes_p90'')))
          (or0 (metrics p ''pass_completion'')))
          (or0 (metrics p ''key_passes_p90'')))
          (or0 (metrics p ''dribbles_p90'')))
          (or0 (metrics p ''pressures_p90'')))
          (or0 (metrics p ''press_success'')))
          (or0 (metrics p ''aerial_win_rate'')))
          (or0 (metrics p ''distance_p90''))) 11)"
  by (simp add: computeOverall_accumulate METRICS_def)

text \<open>
  The similarity of two example players, operation by operation: the difference and its
  square, the eleven additions, the two square roots, the quotient, the difference from
  1, the product with 100, and the rounding to an integer.
\<close>

lemma similarity_flat_200_blank:
  "euclideanSimilarity (flat_profile i n pos a 200) (blank_profile i' n' pos' a') = - 100"
proof -
  have h: "\<forall>m\<in>set METRICS. or0 (metrics (flat_profile i n pos a 200) m) = 200
             \<and> or0 (metrics (blank_profile i' n' pos' a') m) = 0"
    by (simp add: or0_flat_profile or0_blank_profile)
  have e1: "js_sub 200 0 = 200"
    unfolding js_sub_def
    using binary64_exact_eval [of "200" 0 "200 - 0"] by simp
  have e2: "Math_pow2 200 = 40000"
    unfolding Math_pow2_def
    using binary64_exact_eval [of "40000" 0 "200 * 200"] by simp
  have e3: "js_add 0 40000 = 40000"
    unfolding js_add_def
    using binary64_exact_eval [of "40000" 0 "0 + 40000"] by simp
  have e4: "js_add 40000 40000 = 80000"
    unfolding js_add_def
    using binary64_exact_eval [of "80000" 0 "40000 + 40000"] by simp
  have e5: "js_add 80000 40000 = 120000"
    unfolding js_add_def
    using binary64_exact_eval [of "120000" 0 "80000 + 40000"] by simp
  have e6: "js_add 120000 40000 = 160000"
    unfolding js_add_def
    using binary64_exact_eval [of "160000" 0 "120000 + 40000"] by simp
  have e7: "js_add 160000 40000 = 200000"
    unfolding js_add_def
    using binary64_exact_eval [of "200000" 0 "160000 + 40000"] by simp
  have e8: "js_add 200000 40000 = 240000"
    unfolding js_add_def
    using binary64_exact_eval [of "240000" 0 "200000 + 40000"] by simp
  have e9: "js_add 240000 40000 = 280000"
    unfolding js_add_def
    using binary64_exact_eval [of "280000" 0 "240000 + 40000"] by simp
  have e10: "js_add 280000 40000 = 320000"
    unfolding js_add_def
    using binary64_exact_eval [of "320000" 0 "280000 + 40000"] by simp
  have e11: "js_add 320000 40000 = 360000"
    unfolding js_add_def
    using binary64_exact_eval [of "360000" 0 "320000 + 40000"] by simp
  have e12: "js_add 360000 40000 = 400000"
    unfolding js_add_def
    using binary64_exact_eval [of "400000" 0 "360000 + 40000"] by simp
  have e13: "js_add 400000 40000 = 440000"
    unfolding js_add_def
    using binary64_exact_eval [of "440000" 0 "400000 + 40000"] by simp
  have e14: "Math_sqrt 440000 = 5834668035145441 / 2 ^ 43"
    unfolding Math_sqrt_def
    using binary64_sqrt_eval [of 5834668035145441 43 "440000"] by simp
  have e15: "Math_sqrt 110000 = 5834668035145441 / 2 ^ 44"
    unfolding Math_sqrt_def
    using binary64_sqrt_eval [of 5834668035145441 44 "110000"] by simp
  have e16: "js_div (5834668035145441 / 2 ^ 43) (5834668035145441 / 2 ^ 44) = 2"
    unfolding js_div_def
    using binary64_exact_eval [of "2" 0 "(5834668035145441 / 2 ^ 43) / (5834668035145441 / 2 ^ 44)"] by simp
  have e17: "js_sub 1 2 = - 1"
    unfolding js_sub_def
    using binary64_exact_eval [of "-1" 0 "1 - 2"] by simp
  have e18: "js_mul (- 1) 100 = - 100"
    unfolding js_mul_def
    using binary64_exact_eval [of "-100" 0 "(- 1) * 100"] by simp
  have r: "Math_round (- 100) = - 100"
    by (rule Math_round_eqI) simp_all
  show ?thesis
    unfolding similarity_uniform [OF h] e1 e2 fold_METRICS
    unfolding e3 e4 e5 e6 e7 e8 e9 e10 e11 e12 e13 e14 e15 e16 e17 e18
    by (rule r)
qed

lemma similarity_flat_85_2_blank:
  "euclideanSimilarity (flat_profile i n pos a (85 / 2)) (blank_profile i' n' pos' a') = 57"
proof -
  have h: "\<forall>m\<in>set METRICS. or0 (metrics (flat_profile i n pos a (85 / 2)) m) = (85 / 2)
             \<and> or0 (metrics (blank_profile i' n' pos' a') m) = 0"
    by (simp add: or0_flat_profile or0_blank_profile)
  have e1: "js_sub (85 / 2) 0 = 85 / 2"
    unfolding js_sub_def
    using binary64_exact_eval [of "85" 1 "(85 / 2) - 0"] by simp
  have e2: "Math_pow2 (85 / 2) = 7225 / 2 ^ 2"
    unfolding Math_pow2_def
    using binary64_exact_eval [of "7225" 2 "(85 / 2) * (85 / 2)"] by simp
  have e3: "js_add 0 (7225 / 2 ^ 2) = 7225 / 2 ^ 2"
    unfolding js_add_def
    using binary64_exact_eval [of "7225" 2 "0 + (7225 / 2 ^ 2)"] by simp
  have e4: "js_add (7225 / 2 ^ 2) (7225 / 2 ^ 2) = 7225 / 2"
    unfolding js_add_def
    using binary64_exact_eval [of "7225" 1 "(7225 / 2 ^ 2) + (7225 / 2 ^ 2)"] by simp
  have e5: "js_add (7225 / 2) (7225 / 2 ^ 2) = 21675 / 2 ^ 2"
    unfolding js_add_def
    using binary64_exact_eval [of "21675" 2 "(7225 / 2) + (7225 / 2 ^ 2)"] by simp
  have e6: "js_add (21675 / 2 ^ 2) (7225 / 2 ^ 2) = 7225"
    unfolding js_add_def
    using binary64_exact_eval [of "7225" 0 "(21675 / 2 ^ 2) + (7225 / 2 ^ 2)"] by simp
  have e7: "js_add 7225 (7225 / 2 ^ 2) = 36125 / 2 ^ 2"
    unfolding js_add_def
    using binary64_exact_eval [of "36125" 2 "7225 + (7225 / 2 ^ 2)"] by simp
  have e8: "js_add (36125 / 2 ^ 2) (7225 / 2 ^ 2) = 21675 / 2"
    unfolding js_add_def
    using binary64_exact_eval [of "21675" 1 "(36125 / 2 ^ 2) + (7225 / 2 ^ 2)"] by simp
  have e9: "js_add (21675 / 2) (7225 / 2 ^ 2) = 50575 / 2 ^ 2"
    unfolding js_add_def
    using binary64_exact_eval [of "50575" 2 "(21675 / 2) + (7225 / 2 ^ 2)"] by simp
  have e10: "js_add (50575 / 2 ^ 2) (7225 / 2 ^ 2) = 14450"
    unfolding js_add_def
    using binary64_exact_eval [of "14450" 0 "(50575 / 2 ^ 2) + (7225 / 2 ^ 2)"] by simp
  have e11: "js_add 14450 (7225 / 2 ^ 2) = 65025 / 2 ^ 2"
    unfolding js_add_def
    using binary64_exact_eval [of "65025" 2 "14450 + (7225 / 2 ^ 2)"] by simp
  have e12: "js_add (65025 / 2 ^ 2) (7225 / 2 ^ 2) = 36125 / 2"
    unfolding js_add_def
    using binary64_exact_eval [of "36125" 1 "(65025 / 2 ^ 2) + (7225 / 2 ^ 2)"] by simp
  have e13: "js_add (36125 / 2) (7225 / 2 ^ 2) = 79475 / 2 ^ 2"
    unfolding js_add_def
    using binary64_exact_eval [of "79475" 2 "(36125 / 2) + (7225 / 2 ^ 2)"] by simp
  have e14: "Math_sqrt (79475 / 2 ^ 2) = 4959467829873625 / 2 ^ 45"
    unfolding Math_sqrt_def
    using binary64_sqrt_eval [of 4959467829873625 45 "(79475 / 2 ^ 2)"] by simp
  have e15: "Math_sqrt 110000 = 5834668035145441 / 2 ^ 44"
    unfolding Math_sqrt_def
    using binary64_sqrt_eval [of 5834668035145441 44 "110000"] by simp
  have e16: "js_div (4959467829873625 / 2 ^ 45) (5834668035145441 / 2 ^ 44) = 7656119366529843 / 2 ^ 54"
    unfolding js_div_def
    using binary64_eval [of 7656119366529843 54 "(4959467829873625 / 2 ^ 45) / (5834668035145441 / 2 ^ 44)"] by simp
  have e17: "js_sub 1 (7656119366529843 / 2 ^ 54) = 2589569785738035 / 2 ^ 52"
    unfolding js_sub_def
    using binary64_eval_tie [of 5179139571476070 53 "1 - (7656119366529843 / 2 ^ 54)"] by simp
  have e18: "js_mul (2589569785738035 / 2 ^ 52) 100 = 8092405580431359 / 2 ^ 47"
    unfolding js_mul_def
    using binary64_eval [of 8092405580431359 47 "(2589569785738035 / 2 ^ 52) * 100"] by simp
  have r: "Math_round (8092405580431359 / 2 ^ 47) = 57"
    by (rule Math_round_eqI) simp_all
  show ?thesis
    unfolding similarity_uniform [OF h] e1 e2 fold_METRICS
    unfolding e3 e4 e5 e6 e7 e8 e9 e10 e11 e12 e13 e14 e15 e16 e17 e18
    by (rule r)
qed

text \<open>The role fit of two example players for \<open>Poacher\<close>, operation by operation.\<close>

lemma calcRoleFit_flat_minus_10:
  "calcRoleFit (flat_profile i n pos a (- 10)) Poacher = - 10"
proof -
  let ?p = "flat_profile i n pos a (- 10)"
  have v: "or0 (metrics ?p ''shot_conversion'') = - 10"
    "or0 (metrics ?p ''xg_p90'') = - 10"
    "or0 (metrics ?p ''shots_p90'') = - 10"
    "or0 (metrics ?p ''aerial_win_rate'') = - 10"
    "or0 (metrics ?p ''press_success'') = - 10"
    by (simp_all add: or0_flat_profile METRICS_def)
  have e1: "js_mul (- 10) (5404319552844595 / 2 ^ 54) = - 3"
    unfolding js_mul_def
    using binary64_eval_neg [of 6755399441055744 51 "(- 10) * (5404319552844595 / 2 ^ 54)"] by simp
  have e2: "js_add 0 (- 3) = - 3"
    unfolding js_add_def
    using binary64_exact_eval [of "-3" 0 "0 + (- 3)"] by simp
  have e3: "js_mul (- 10) (1 / 2 ^ 2) = - (5 / 2)"
    unfolding js_mul_def
    using binary64_exact_eval [of "-5" 1 "(- 10) * (1 / 2 ^ 2)"] by simp
  have e4: "js_add (- 3) (- (5 / 2)) = - (11 / 2)"
    unfolding js_add_def
    using binary64_exact_eval [of "-11" 1 "(- 3) + (- (5 / 2))"] by simp
  have e5: "js_mul (- 10) (3602879701896397 / 2 ^ 54) = - 2"
    unfolding js_mul_def
    using binary64_eval_above_neg [of 4503599627370496 51 "(- 10) * (3602879701896397 / 2 ^ 54)"] by simp
  have e6: "js_add (- (11 / 2)) (- 2) = - (15 / 2)"
    unfolding js_add_def
    using binary64_exact_eval [of "-15" 1 "(- (11 / 2)) + (- 2)"] by simp
  have e7: "js_mul (- 10) (5404319552844595 / 2 ^ 55) = - (3 / 2)"
    unfolding js_mul_def
    using binary64_eval_neg [of 6755399441055744 52 "(- 10) * (5404319552844595 / 2 ^ 55)"] by simp
  have e8: "js_add (- (15 / 2)) (- (3 / 2)) = - 9"
    unfolding js_add_def
    using binary64_exact_eval [of "-9" 0 "(- (15 / 2)) + (- (3 / 2))"] by simp
  have e9: "js_mul (- 10) (3602879701896397 / 2 ^ 55) = - 1"
    unfolding js_mul_def
    using binary64_eval_above_neg [of 4503599627370496 52 "(- 10) * (3602879701896397 / 2 ^ 55)"] by simp
  have e10: "js_add (- 9) (- 1) = - 10"
    unfolding js_add_def
    using binary64_exact_eval [of "-10" 0 "(- 9) + (- 1)"] by simp
  have r: "Math_round (min (- 10) 99) = - 10"
    by (rule Math_round_eqI) simp_all
  show ?thesis
    unfolding calcRoleFit_Poacher v Poacher_weights
    unfolding e1 e2 e3 e4 e5 e6 e7 e8 e9 e10
    by (rule r)
qed

lemma calcRoleFit_listed_55_46_7:
  "calcRoleFit (listed_profile [(''shots_p90'', 55), (''shot_conversion'', 46), (''press_success'', 7)]) Poacher = 25"
proof -
  let ?p = "listed_profile [(''shots_p90'', 55), (''shot_conversion'', 46), (''press_success'', 7)]"
  have v: "or0 (metrics ?p ''shot_conversion'') = 46"
    "or0 (metrics ?p ''xg_p90'') = 0"
    "or0 (metrics ?p ''shots_p90'') = 55"
    "or0 (metrics ?p ''aerial_win_rate'') = 0"
    "or0 (metrics ?p ''press_success'') = 7"
    by (simp_all add: listed_profile_def or0_def)
  have e1: "js_mul 46 (5404319552844595 / 2 ^ 54) = 7768709357214105 / 2 ^ 49"
    unfolding js_mul_def
    using binary64_eval [of 7768709357214105 49 "46 * (5404319552844595 / 2 ^ 54)"] by simp
  have e2: "js_add 0 (7768709357214105 / 2 ^ 49) = 7768709357214105 / 2 ^ 49"
    unfolding js_add_def
    using binary64_exact_eval [of "7768709357214105" 49 "0 + (7768709357214105 / 2 ^ 49)"] by simp
  have e3: "js_mul 0 (1 / 2 ^ 2) = 0"
    unfolding js_mul_def by simp
  have e4: "js_add (7768709357214105 / 2 ^ 49) 0 = 7768709357214105 / 2 ^ 49"
    unfolding js_add_def
    using binary64_exact_eval [of "7768709357214105" 49 "(7768709357214105 / 2 ^ 49) + 0"] by simp
  have e5: "js_mul 55 (3602879701896397 / 2 ^ 54) = 11"
    unfolding js_mul_def
    using binary64_eval [of 6192449487634432 49 "55 * (3602879701896397 / 2 ^ 54)"] by simp
  have e6: "js_add (7768709357214105 / 2 ^ 49) 11 = 1745144855606067 / 2 ^ 46"
    unfolding js_add_def
    using binary64_eval_tie [of 6980579422424268 48 "(7768709357214105 / 2 ^ 49) + 11"] by simp
  have e7: "js_mul 0 (5404319552844595 / 2 ^ 55) = 0"
    unfolding js_mul_def by simp
  have e8: "js_add (1745144855606067 / 2 ^ 46) 0 = 1745144855606067 / 2 ^ 46"
    unfolding js_add_def
    using binary64_exact_eval [of "1745144855606067" 46 "(1745144855606067 / 2 ^ 46) + 0"] by simp
  have e9: "js_mul 7 (3602879701896397 / 2 ^ 55) = 6305039478318695 / 2 ^ 53"
    unfolding js_mul_def
    using binary64_eval [of 6305039478318695 53 "7 * (3602879701896397 / 2 ^ 55)"] by simp
  have e10: "js_add (1745144855606067 / 2 ^ 46) (6305039478318695 / 2 ^ 53) = 7177611906121727 / 2 ^ 48"
    unfolding js_add_def
    using binary64_eval [of 7177611906121727 48 "(1745144855606067 / 2 ^ 46) + (6305039478318695 / 2 ^ 53)"] by simp
  have r: "Math_round (min (7177611906121727 / 2 ^ 48) 99) = 25"
    by (rule Math_round_eqI) simp_all
  show ?thesis
    unfolding calcRoleFit_Poacher v Poacher_weights
    unfolding e1 e2 e3 e4 e5 e6 e7 e8 e9 e10
    by (rule r)
qed

text \<open>The overall rating of a player with three metrics, operation by operation.\<close>

lemma computeOverall_listed_three:
  "computeOverall (listed_profile [(''shot_conversion'', binary64 13.3),
       (''pass_completion'', binary64 57.4), (''dribbles_p90'', binary64 0.8)]) = 7"
proof -
  let ?p = "listed_profile [(''shot_conversion'', binary64 13.3), (''pass_completion'', binary64 57.4), (''dribbles_p90'', binary64 0.8)]"
  have e1: "binary64 13.3 = 3743617190251725 / 2 ^ 48"
    using binary64_eval [of 7487234380503450 49 "13.3"] by simp
  have e2: "binary64 57.4 = 8078331831595827 / 2 ^ 47"
    using binary64_eval [of 8078331831595827 47 "57.4"] by simp
  have e3: "binary64 0.8 = 3602879701896397 / 2 ^ 52"
    using binary64_eval [of 7205759403792794 53 "0.8"] by simp
  have v: "or0 (metrics ?p ''shots_p90'') = 0"
    "or0 (metrics ?p ''xg_p90'') = 0"
    "or0 (metrics ?p ''shot_conversion'') = binary64 13.3"
    "or0 (metrics ?p ''prog_passes_p90'') = 0"
    "or0 (metrics ?p ''pass_completion'') = binary64 57.4"
    "or0 (metrics ?p ''key_passes_p90'') = 0"
    "or0 (metrics ?p ''dribbles_p90'') = binary64 0.8"
    "or0 (metrics ?p ''pressures_p90'') = 0"
    "or0 (metrics ?p ''press_success'') = 0"
    "or0 (metrics ?p ''aerial_win_rate'') = 0"
    "or0 (metrics ?p ''distance_p90'') = 0"
    by (simp_all add: listed_profile_def or0_def)
  have e4: "js_add 0 0 = 0"
    unfolding js_add_def by simp
  have e5: "js_add 0 (3743617190251725 / 2 ^ 48) = 3743617190251725 / 2 ^ 48"
    unfolding js_add_def
    using binary64_exact_eval [of "3743617190251725" 48 "0 + (3743617190251725 / 2 ^ 48)"] by simp
  have e6: "js_add (3743617190251725 / 2 ^ 48) 0 = 3743617190251725 / 2 ^ 48"
    unfolding js_add_def
    using binary64_exact_eval [of "3743617190251725" 48 "(3743617190251725 / 2 ^ 48) + 0"] by simp
  have e7: "js_add (3743617190251725 / 2 ^ 48) (8078331831595827 / 2 ^ 47) = 4975070213360845 / 2 ^ 46"
    unfolding js_add_def
    using binary64_eval [of 4975070213360845 46 "(3743617190251725 / 2 ^ 48) + (8078331831595827 / 2 ^ 47)"] by simp
  have e8: "js_add (4975070213360845 / 2 ^ 46) 0 = 4975070213360845 / 2 ^ 46"
    unfolding js_add_def
    using binary64_exact_eval [of "4975070213360845" 46 "(4975070213360845 / 2 ^ 46) + 0"] by simp
  have e9: "js_add (4975070213360845 / 2 ^ 46) (3602879701896397 / 2 ^ 52) = 143 / 2"
    unfolding js_add_def
    using binary64_eval [of 5031365208702976 46 "(4975070213360845 / 2 ^ 46) + (3602879701896397 / 2 ^ 52)"] by simp
  have e10: "js_add (143 / 2) 0 = 143 / 2"
    unfolding js_add_def
    using binary64_exact_eval [of "143" 1 "(143 / 2) + 0"] by simp
  have e11: "js_div (143 / 2) 11 = 13 / 2"
    unfolding js_div_def
    using binary64_exact_eval [of "13" 1 "(143 / 2) / 11"] by simp
  have r: "Math_round (13 / 2) = 7"
    by (rule Math_round_eqI) simp_all
  show ?thesis
    unfolding computeOverall_METRICS v
    unfolding e1 e2 e3
    unfolding e4 e5 e6 e7 e8 e9 e10 e11
    by (rule r)
qed

subsection \<open>Scores of the example records\<close>

lemma spec_similarity_score_flat:
  assumes "set catalog \<subseteq> set METRICS" and "catalog \<noteq> []"
  shows "spec_similarity_score catalog (flat_profile i n pos a v) (flat_profile i' n' pos' a' v')
         = (1 - \<bar>v - v'\<bar> / 100) * 100"
proof -
  have "\<forall>m\<in>set catalog. (metric_value (flat_profile i n pos a v) m
           - metric_value (flat_profile i' n' pos' a' v') m)\<^sup>2 = (v - v')\<^sup>2"
    using assms(1) by (auto simp: metric_value_flat_profile)
  then have s: "(\<Sum>m\<leftarrow>catalog. (metric_value (flat_profile i n pos a v) m
           - metric_value (flat_profile i' n' pos' a' v') m)\<^sup>2) = real (length catalog) * (v - v')\<^sup>2"
    by (rule sum_list_const_on)
  have N: "0 < real (length catalog)" using assms(2) by simp
  have "sqrt (real (length catalog) * (v - v')\<^sup>2) / sqrt (real (length catalog) * 100\<^sup>2)
        = \<bar>v - v'\<bar> / 100"
    unfolding real_sqrt_mult real_sqrt_abs using N by simp
  then show ?thesis
    unfolding spec_similarity_score_def s by simp
qed

lemma spec_similarity_score_flat_blank:
  "spec_similarity_score METRICS (flat_profile i n pos a v) (blank_profile i' n' pos' a')
         = (1 - \<bar>v\<bar> / 100) * 100"
proof -
  have "\<forall>m\<in>set METRICS. (metric_value (flat_profile i n pos a v) m
           - metric_value (blank_profile i' n' pos' a') m)\<^sup>2 = v\<^sup>2"
    by (simp add: metric_value_flat_profile metric_value_blank_profile)
  then have s: "(\<Sum>m\<leftarrow>METRICS. (metric_value (flat_profile i n pos a v) m
           - metric_value (blank_profile i' n' pos' a') m)\<^sup>2) = real (length METRICS) * v\<^sup>2"
    by (rule sum_list_const_on)
  have "sqrt (real (length METRICS) * v\<^sup>2) / sqrt (real (length METRICS) * 100\<^sup>2) = \<bar>v\<bar> / 100"
    unfolding real_sqrt_mult real_sqrt_abs by (simp add: length_METRICS)
  then show ?thesis
    unfolding spec_similarity_score_def s by simp
qed

lemma flat_profile_bounds:
  assumes "0 \<le> v" "v \<le> 100" "set catalog \<subseteq> set METRICS"
  shows "\<forall>m\<in>set catalog. 0 \<le> metric_value (flat_profile i n pos a v) m
            \<and> metric_value (flat_profile i n pos a v) m \<le> 100"
  using assms by (auto simp: metric_value_flat_profile)

lemma similarity_flat_profiles:
  assumes v: "0 \<le> v" "v \<le> 100" "0 \<le> v'" "v' \<le> 100"
    and lo: "of_int k - 1 / 2 \<le> (1 - \<bar>v - v'\<bar> / 100) * 100 - 1 / 500"
    and hi: "(1 - \<bar>v - v'\<bar> / 100) * 100 + 1 / 500 < of_int k + 1 / 2"
  shows "euclideanSimilarity (flat_profile i n pos a v) (flat_profile i' n' pos' a' v') = k"
proof -
  let ?a = "flat_profile i n pos a v" and ?b = "flat_profile i' n' pos' a' v'"
  let ?s = "spec_similarity_score METRICS ?a ?b"
  have c: "set METRICS \<subseteq> set METRICS" "METRICS \<noteq> []" by (simp_all add: METRICS_def)
  have s: "?s = (1 - \<bar>v - v'\<bar> / 100) * 100" by (rule spec_similarity_score_flat [OF c])
  have N: "1 \<le> length METRICS" "length METRICS \<le> 1000" by (simp_all add: length_METRICS)
  have 1: "round (?s - 1 / 500) = k" unfolding s using lo hi by (intro round_eqI) linarith+
  have 2: "round (?s + 1 / 500) = k" unfolding s using lo hi by (intro round_eqI) linarith+
  have 3: "round ?s = k" unfolding s using lo hi by (intro round_eqI) linarith+
  have "euclideanSimilarity_on METRICS ?a ?b = spec_similarity METRICS ?a ?b"
    using 1 2 by (intro similarity_agrees(2) [OF N flat_profile_bounds flat_profile_bounds] v c) simp
  then show ?thesis
    by (simp add: euclideanSimilarity_def spec_similarity_def 3)
qed

lemma similarity_squad:
  "euclideanSimilarity (flat_profile i n pos a 50) (flat_profile i' n' pos' a' 20) = 70"
  "euclideanSimilarity (flat_profile i n pos a 50) (flat_profile i' n' pos' a' 45) = 95"
  "euclideanSimilarity (flat_profile i n pos a 50) (flat_profile i' n' pos' a' 80) = 70"
  by (rule similarity_flat_profiles; simp)+

lemma spec_overall_score_flat: "spec_overall_score (flat_profile i n pos a v) = v"
proof -
  have "\<forall>m\<in>set METRICS. metric_value (flat_profile i n pos a v) m = v"
    by (simp add: metric_value_flat_profile)
  then have "(\<Sum>m\<leftarrow>METRICS. metric_value (flat_profile i n pos a v) m) = real (length METRICS) * v"
    by (rule sum_list_const_on)
  then show ?thesis
    by (simp add: spec_overall_score_def length_METRICS)
qed

lemma computeOverall_flat_profile:
  assumes v: "0 \<le> v" "v \<le> 100"
    and lo: "of_int k - 1 / 2 \<le> v - 1 / 2 ^ 42" and hi: "v + 1 / 2 ^ 42 < of_int k + 1 / 2"
  shows "computeOverall (flat_profile i n pos a v) = k"
proof -
  let ?p = "flat_profile i n pos a v"
  have b: "\<forall>m\<in>set METRICS. 0 \<le> metric_value ?p m \<and> metric_value ?p m \<le> 100"
    using v by (intro flat_profile_bounds) simp_all
  have p: "(0::real) < 1 / 2 ^ 42" by simp
  have 1: "round (spec_overall_score ?p - 1 / 2 ^ 42) = k"
    unfolding spec_overall_score_flat using lo hi p by (intro round_eqI) linarith+
  have 2: "round (spec_overall_score ?p + 1 / 2 ^ 42) = k"
    unfolding spec_overall_score_flat using lo hi p by (intro round_eqI) linarith+
  have 3: "round (spec_overall_score ?p) = k"
    unfolding spec_overall_score_flat using lo hi p by (intro round_eqI) linarith+
  have "computeOverall ?p = spec_overall ?p"
    using 1 2 by (intro overall_agrees(2) [OF b]) simp
  then show ?thesis by (simp add: spec_overall_def 3)
qed

lemma computeOverall_squad:
  "computeOverall (flat_profile i n pos a 50) = 50"
  "computeOverall (flat_profile i n pos a 20) = 20"
  by (rule computeOverall_flat_profile; simp)+

lemma spec_roleFit_score_flat_Poacher:
  "spec_roleFit_score (flat_profile i n pos a v) Poacher
     = min (5404319552844595 / 2 ^ 54 * v + 1 / 2 ^ 2 * v + 3602879701896397 / 2 ^ 54 * v
            + 5404319552844595 / 2 ^ 55 * v + 3602879701896397 / 2 ^ 55 * v) 99"
  unfolding spec_roleFit_score_def Poacher_values
  by (simp add: metric_value_flat_profile METRICS_def)

lemma Poacher_bounds:
  assumes "0 \<le> v" "v \<le> 100"
  shows "\<forall>(m, w)\<in>set Poacher. 0 \<le> metric_value (flat_profile i n pos a v) m
            \<and> metric_value (flat_profile i n pos a v) m \<le> 100 \<and> 0 \<le> w \<and> w \<le> 1"
  unfolding Poacher_values using assms
  by (simp add: metric_value_flat_profile METRICS_def)

lemma calcRoleFit_flat_Poacher:
  assumes v: "0 \<le> v" "v \<le> 100"
    and lo: "of_int k - 1 / 2 \<le> spec_roleFit_score (flat_profile i n pos a v) Poacher - 1 / 2 ^ 39"
    and hi: "spec_roleFit_score (flat_profile i n pos a v) Poacher + 1 / 2 ^ 39 < of_int k + 1 / 2"
  shows "calcRoleFit (flat_profile i n pos a v) Poacher = k"
proof -
  let ?p = "flat_profile i n pos a v"
  have n: "length Poacher \<le> 11" by (simp add: Poacher_eq)
  have p: "(0::real) < 1 / 2 ^ 39" by simp
  have 1: "round (spec_roleFit_score ?p Poacher - 1 / 2 ^ 39) = k"
    using lo hi p by (intro round_eqI) linarith+
  have 2: "round (spec_roleFit_score ?p Poacher + 1 / 2 ^ 39) = k"
    using lo hi p by (intro round_eqI) linarith+
  have 3: "round (spec_roleFit_score ?p Poacher) = k"
    using lo hi p by (intro round_eqI) linarith+
  have "calcRoleFit ?p Poacher = spec_roleFit ?p Poacher"
    using 1 2 by (intro roleFit_agrees(2) [OF Poacher_bounds [OF v] n]) simp
  then show ?thesis by (simp add: spec_roleFit_def 3)
qed

lemma calcRoleFit_squad:
  "calcRoleFit (flat_profile i n pos a 80) Poacher = 80"
  "calcRoleFit (flat_profile i n pos a 50) Poacher = 50"
  "calcRoleFit (flat_profile i n pos a 45) Poacher = 45"
  "calcRoleFit (flat_profile i n pos a 20) Poacher = 20"
  by (rule calcRoleFit_flat_Poacher; simp add: spec_roleFit_score_flat_Poacher)+

lemma byCodeUnit_total: "byCodeUnit s t \<le> 0 \<or> byCodeUnit t s \<le> 0"
  by (auto simp: byCodeUnit_def)

lemma byCodeUnit_trans:
  "byCodeUnit s t \<le> 0 \<and> byCodeUnit t u \<le> 0 \<longrightarrow> byCodeUnit s u \<le> 0"
  by (auto simp: byCodeUnit_def split: if_splits)

lemma byCodeUnit_examples:
  "byCodeUnit ''Bo'' ''Ada'' = 1" "byCodeUnit ''Ada'' ''Bo'' = - 1"
  "byCodeUnit ''Cy'' ''Ada'' = 1" "byCodeUnit ''Cy'' ''Bo'' = 1"
  "byCodeUnit ''Bo'' ''Cy'' = - 1" "byCodeUnit ''Ada'' ''Cy'' = - 1"
  by (simp_all add: byCodeUnit_def less_char_def)

lemma parseInt_examples:
  "parseInt ''40'' = Some 40"
  "parseInt ''30abc'' = Some 30"
  "parseInt ''abc'' = None"
  "parseInt '''' = None"
  "parseInt '' -7px'' = Some (- 7)"
  "parseInt ''0x1F'' = Some 31"
  by (simp_all add: parseInt_def Let_def StrWhiteSpaceChar_def is_digit_def digit_value_def)

subsection \<open>Overall rating\<close>

text \<open>
  Claim C8, as the code has it. \<open>computeOverall\<close> adds the values of all catalog
  metrics, an absent metric counting as 0, divides by the length of the catalog and
  rounds to an integer, every step in binary64. When every catalog value lies between
  0 and 100, the result lies between 0 and 100 and differs by at most 1 from the exact
  arithmetic mean rounded to the nearest integer; the two are equal unless the exact
  mean is within \<open>2\<^sup>-\<^sup>4\<^sup>2\<close> of the middle between two integers. A player with no catalog
  metric at all gets 0.
\<close>

theorem computeOverall_mean:
  "((\<forall>m\<in>set METRICS. 0 \<le> metric_value p m \<and> metric_value p m \<le> 100)
      \<longrightarrow> 0 \<le> computeOverall p \<and> computeOverall p \<le> 100
          \<and> \<bar>computeOverall p - spec_overall p\<bar> \<le> 1
          \<and> (round (spec_overall_score p - 1 / 2 ^ 42) = round (spec_overall_score p + 1 / 2 ^ 42)
              \<longrightarrow> computeOverall p = spec_overall p))
   \<and> ((\<forall>m\<in>set METRICS. metrics p m = None) \<longrightarrow> computeOverall p = 0)"
  using overall_agrees [of p] overall_blank [of p] by blast

text \<open>
  The theorem at a player whose catalog metrics are all 50, whose overall rating is 50
  as is the rounded exact mean, and at a player without metrics, whose overall rating
  is 0.
\<close>

theorem computeOverall_mean_witness:
  "computeOverall (flat_profile 1 ''Ada'' ''FW'' 24 50) = 50
   \<and> spec_overall (flat_profile 1 ''Ada'' ''FW'' 24 50) = 50
   \<and> 0 \<le> computeOverall (flat_profile 1 ''Ada'' ''FW'' 24 50)
   \<and> computeOverall (flat_profile 1 ''Ada'' ''FW'' 24 50) \<le> 100
   \<and> computeOverall (blank_profile 2 ''Bo'' ''MF'' 30) = 0"
proof -
  let ?p = "flat_profile 1 ''Ada'' ''FW'' 24 50"
  have h1: "\<forall>m\<in>set METRICS. 0 \<le> metric_value ?p m \<and> metric_value ?p m \<le> 100"
    by (simp add: metric_value_flat_profile)
  have h2: "\<forall>m\<in>set METRICS. metrics (blank_profile 2 ''Bo'' ''MF'' 30) m = None"
    by (simp add: blank_profile_def)
  have s: "spec_overall_score ?p = 50" by (rule spec_overall_score_flat)
  have "round (50 - 1 / 2 ^ 42 :: real) = 50" "round (50 + 1 / 2 ^ 42 :: real) = 50"
    "round (50 :: real) = 50"
    by (rule round_eqI; simp)+
  then have r: "round (spec_overall_score ?p - 1 / 2 ^ 42) = round (spec_overall_score ?p + 1 / 2 ^ 42)"
    "spec_overall ?p = 50"
    unfolding spec_overall_def s by simp_all
  show ?thesis
    using computeOverall_mean [of ?p] computeOverall_mean [of "blank_profile 2 ''Bo'' ''MF'' 30"]
      h1 h2 r
    by simp
qed

text \<open>
  The rounded exact mean is not always returned. For a player with the three metrics
  13.3, 57.4 and 0.8 (the binary64 values of these literals) the sum computed by the
  code is 71.5 and the quotient 6.5, so \<open>computeOverall\<close> returns 7, while the exact
  mean of the three values is below 6.5 and rounds to 6.
\<close>

theorem computeOverall_rounds_up:
  "computeOverall (listed_profile [(''shot_conversion'', binary64 13.3),
       (''pass_completion'', binary64 57.4), (''dribbles_p90'', binary64 0.8)]) = 7
   \<and> spec_overall (listed_profile [(''shot_conversion'', binary64 13.3),
       (''pass_completion'', binary64 57.4), (''dribbles_p90'', binary64 0.8)]) = 6"
proof -
  let ?p = "listed_profile [(''shot_conversion'', binary64 13.3),
       (''pass_completion'', binary64 57.4), (''dribbles_p90'', binary64 0.8)]"
  have e: "binary64 13.3 = 3743617190251725 / 2 ^ 48"
    "binary64 57.4 = 8078331831595827 / 2 ^ 47"
    "binary64 0.8 = 3602879701896397 / 2 ^ 52"
    using binary64_eval [of 7487234380503450 49 "13.3"]
      binary64_eval [of 8078331831595827 47 "57.4"]
      binary64_eval [of 7205759403792794 53 "0.8"]
    by simp_all
  have s: "spec_overall_score ?p = (binary64 13.3 + binary64 57.4 + binary64 0.8) / 11"
    by (simp add: spec_overall_score_def METRICS_def listed_profile_def metric_value_def)
  have "spec_overall ?p = 6"
    unfolding spec_overall_def s unfolding e by (rule round_eqI) simp_all
  with computeOverall_listed_three show ?thesis
    by (rule conjI)
qed

subsection \<open>Similarity\<close>

text \<open>
  Claim C1, as the code has it. \<open>euclideanSimilarity\<close> evaluates
  \<open>round ((1 - dist / maxDist) * 100)\<close> over the catalog \<open>METRICS\<close>, whose length is
  11, in binary64; \<open>maxDist\<close> is computed from the length of the catalog. For every
  catalog of 1 to 1000 metrics and every pair of players whose values on the catalog
  (absent counting as 0) lie between 0 and 100, the result differs by at most 1 from
  the formula in exact arithmetic, with \<open>dist\<close> the Euclidean distance over the catalog
  and \<open>maxDist = sqrt (N * 100\<^sup>2)\<close> for the length \<open>N\<close> of that catalog, and is equal
  to it unless the exact value before rounding is within \<open>1/500\<close> of the middle
  between two integers.
\<close>

theorem euclideanSimilarity_formula:
  "euclideanSimilarity a b = euclideanSimilarity_on METRICS a b
   \<and> length METRICS = 11
   \<and> (1 \<le> length catalog \<and> length catalog \<le> 1000
        \<and> (\<forall>m\<in>set catalog. 0 \<le> metric_value a m \<and> metric_value a m \<le> 100
                              \<and> 0 \<le> metric_value b m \<and> metric_value b m \<le> 100)
      \<longrightarrow> \<bar>euclideanSimilarity_on catalog a b - spec_similarity catalog a b\<bar> \<le> 1
          \<and> (round (spec_similarity_score catalog a b - 1 / 500)
                = round (spec_similarity_score catalog a b + 1 / 500)
              \<longrightarrow> euclideanSimilarity_on catalog a b = spec_similarity catalog a b))"
proof (intro conjI impI)
  show "euclideanSimilarity a b = euclideanSimilarity_on METRICS a b"
    by (simp add: euclideanSimilarity_def)
  show "length METRICS = 11" by (rule length_METRICS)
next
  assume h: "1 \<le> length catalog \<and> length catalog \<le> 1000
        \<and> (\<forall>m\<in>set catalog. 0 \<le> metric_value a m \<and> metric_value a m \<le> 100
                              \<and> 0 \<le> metric_value b m \<and> metric_value b m \<le> 100)"
  then have N: "1 \<le> length catalog" "length catalog \<le> 1000"
    and a: "\<forall>m\<in>set catalog. 0 \<le> metric_value a m \<and> metric_value a m \<le> 100"
    and b: "\<forall>m\<in>set catalog. 0 \<le> metric_value b m \<and> metric_value b m \<le> 100"
    by simp_all
  show "\<bar>euclideanSimilarity_on catalog a b - spec_similarity catalog a b\<bar> \<le> 1"
    by (rule similarity_agrees(1) [OF N a b])
  assume "round (spec_similarity_score catalog a b - 1 / 500)
                = round (spec_similarity_score catalog a b + 1 / 500)"
  then show "euclideanSimilarity_on catalog a b = spec_similarity catalog a b"
    by (rule similarity_agrees(2) [OF N a b])
qed

text \<open>
  The theorem at two players whose catalog values are all 50 and all 20, for the
  catalog of the code and for a catalog of two metrics: code and formula give 70.
\<close>

theorem euclideanSimilarity_formula_witness:
  "euclideanSimilarity (flat_profile 1 ''Ada'' ''FW'' 24 50) (flat_profile 2 ''Bo'' ''MF'' 30 20) = 70
   \<and> spec_similarity METRICS (flat_profile 1 ''Ada'' ''FW'' 24 50) (flat_profile 2 ''Bo'' ''MF'' 30 20) = 70
   \<and> length METRICS = 11
   \<and> euclideanSimilarity_on [''shots_p90'', ''xg_p90'']
        (flat_profile 1 ''Ada'' ''FW'' 24 50) (flat_profile 2 ''Bo'' ''MF'' 30 20) = 70
   \<and> spec_similarity [''shots_p90'', ''xg_p90'']
        (flat_profile 1 ''Ada'' ''FW'' 24 50) (flat_profile 2 ''Bo'' ''MF'' 30 20) = 70"
proof -
  let ?a = "flat_profile 1 ''Ada'' ''FW'' 24 50" and ?b = "flat_profile 2 ''Bo'' ''MF'' 30 20"
  let ?c = "[''shots_p90'', ''xg_p90'']"
  have c: "set METRICS \<subseteq> set METRICS" "METRICS \<noteq> []" "set ?c \<subseteq> set METRICS" "?c \<noteq> []"
    by (simp_all add: METRICS_def)
  have s: "spec_similarity_score METRICS ?a ?b = 70" "spec_similarity_score ?c ?a ?b = 70"
    unfolding spec_similarity_score_flat [OF c(1,2)] spec_similarity_score_flat [OF c(3,4)]
    by simp_all
  have t: "round (70 - 1 / 500 :: real) = 70" "round (70 + 1 / 500 :: real) = 70"
    "round (70 :: real) = 70"
    by (rule round_eqI; simp)+
  have r: "round (spec_similarity_score METRICS ?a ?b - 1 / 500)
             = round (spec_similarity_score METRICS ?a ?b + 1 / 500)"
    "round (spec_similarity_score ?c ?a ?b - 1 / 500) = round (spec_similarity_score ?c ?a ?b + 1 / 500)"
    "spec_similarity METRICS ?a ?b = 70" "spec_similarity ?c ?a ?b = 70"
    unfolding spec_similarity_def s using t by simp_all
  have h: "1 \<le> length METRICS \<and> length METRICS \<le> 1000
        \<and> (\<forall>m\<in>set METRICS. 0 \<le> metric_value ?a m \<and> metric_value ?a m \<le> 100
                              \<and> 0 \<le> metric_value ?b m \<and> metric_value ?b m \<le> 100)"
    by (simp add: length_METRICS metric_value_flat_profile)
  have h': "1 \<le> length ?c \<and> length ?c \<le> 1000
        \<and> (\<forall>m\<in>set ?c. 0 \<le> metric_value ?a m \<and> metric_value ?a m \<le> 100
                              \<and> 0 \<le> metric_value ?b m \<and> metric_value ?b m \<le> 100)"
    by (simp add: metric_value_flat_profile METRICS_def)
  show ?thesis
    using euclideanSimilarity_formula [of ?a ?b METRICS] euclideanSimilarity_formula [of ?a ?b ?c]
      h h' r
    by simp
qed

text \<open>
  The formula in exact arithmetic is not always returned. For a player whose catalog
  values are all 42.5 and a player without metrics the exact value before rounding is
  57.5, which rounds to 58; the code computes 57.49999999999999 and returns 57.
\<close>

theorem euclideanSimilarity_rounds_below:
  "euclideanSimilarity (flat_profile 1 ''Ada'' ''FW'' 24 (85 / 2)) (blank_profile 2 ''Bo'' ''MF'' 30) = 57
   \<and> spec_similarity METRICS (flat_profile 1 ''Ada'' ''FW'' 24 (85 / 2)) (blank_profile 2 ''Bo'' ''MF'' 30) = 58"
proof -
  have "spec_similarity METRICS (flat_profile 1 ''Ada'' ''FW'' 24 (85 / 2)) (blank_profile 2 ''Bo'' ''MF'' 30) = 58"
    unfolding spec_similarity_def spec_similarity_score_flat_blank by (rule round_eqI) simp_all
  with similarity_flat_85_2_blank show ?thesis
    by (rule conjI)
qed

text \<open>
  Claim C4. Similarity is symmetric, and the similarity of a player with itself
  is 100.
\<close>

theorem euclideanSimilarity_symmetric:
  "euclideanSimilarity a b = euclideanSimilarity b a \<and> euclideanSimilarity a a = 100"
  unfolding euclideanSimilarity_def
  using euclideanSimilarity_on_commute [of METRICS a b] euclideanSimilarity_on_self [of METRICS a]
  by simp

text \<open>
  Claim C6, as the code has it. The similarity is at most 100 for every pair of
  players. It is not clamped from below: it is at least 0 when the catalog values of
  both players (absent counting as 0) lie between 0 and 100, and nothing is promised
  outside that bound.
\<close>

theorem euclideanSimilarity_range:
  "euclideanSimilarity a b \<le> 100
   \<and> ((\<forall>m\<in>set METRICS. 0 \<le> or0 (metrics a m) \<and> or0 (metrics a m) \<le> 100
                       \<and> 0 \<le> or0 (metrics b m) \<and> or0 (metrics b m) \<le> 100)
      \<longrightarrow> 0 \<le> euclideanSimilarity a b)"
proof (intro conjI impI)
  show "euclideanSimilarity a b \<le> 100"
    unfolding euclideanSimilarity_def by (rule similarity_at_most_100)
next
  assume h: "\<forall>m\<in>set METRICS. 0 \<le> or0 (metrics a m) \<and> or0 (metrics a m) \<le> 100
                       \<and> 0 \<le> or0 (metrics b m) \<and> or0 (metrics b m) \<le> 100"
  have "length METRICS \<le> 1000" by (simp add: length_METRICS)
  moreover from h have "\<forall>m\<in>set METRICS. 0 \<le> or0 (metrics a m) \<and> or0 (metrics a m) \<le> 100"
    and "\<forall>m\<in>set METRICS. 0 \<le> or0 (metrics b m) \<and> or0 (metrics b m) \<le> 100" by simp_all
  ultimately show "0 \<le> euclideanSimilarity a b"
    unfolding euclideanSimilarity_def by (rule similarity_lower)
qed

text \<open>
  The theorem at two players whose catalog values are all 50 and all 20: every
  difference is 30, the distance is 0.3 of the maximum, the similarity is 70.
\<close>

theorem euclideanSimilarity_range_witness:
  "euclideanSimilarity (flat_profile 1 ''Ada'' ''FW'' 24 50) (flat_profile 2 ''Bo'' ''MF'' 30 20) = 70
   \<and> euclideanSimilarity (flat_profile 1 ''Ada'' ''FW'' 24 50) (flat_profile 2 ''Bo'' ''MF'' 30 20) \<le> 100
   \<and> 0 \<le> euclideanSimilarity (flat_profile 1 ''Ada'' ''FW'' 24 50) (flat_profile 2 ''Bo'' ''MF'' 30 20)"
proof -
  have h: "\<forall>m\<in>set METRICS.
      0 \<le> or0 (metrics (flat_profile 1 ''Ada'' ''FW'' 24 50) m)
      \<and> or0 (metrics (flat_profile 1 ''Ada'' ''FW'' 24 50) m) \<le> 100
      \<and> 0 \<le> or0 (metrics (flat_profile 2 ''Bo'' ''MF'' 30 20) m)
      \<and> or0 (metrics (flat_profile 2 ''Bo'' ''MF'' 30 20) m) \<le> 100"
    by (simp add: or0_flat_profile)
  have v: "euclideanSimilarity (flat_profile 1 ''Ada'' ''FW'' 24 50)
             (flat_profile 2 ''Bo'' ''MF'' 30 20) = 70"
    by (rule similarity_squad)
  show ?thesis
    using euclideanSimilarity_range
      [of "flat_profile 1 ''Ada'' ''FW'' 24 50" "flat_profile 2 ''Bo'' ''MF'' 30 20"] h v
    by blast
qed

text \<open>
  No clamp: a player whose catalog values are all 200 and a player without metrics
  are at twice the maximal distance, and their similarity is \<open>-100\<close>.
\<close>

theorem euclideanSimilarity_not_clamped:
  "euclideanSimilarity (flat_profile 1 ''Ada'' ''FW'' 24 200) (blank_profile 2 ''Bo'' ''MF'' 30) = - 100"
  by (rule similarity_flat_200_blank)

subsection \<open>Role fit\<close>

text \<open>
  Claim C2, as the code has it. For a role template over catalog metrics with
  non-negative weights and a player whose catalog values are non-negative (absent
  counting as 0), the role fit is an integer from 0 to 99 and never 100. It is the
  weighted sum of the template's entries accumulated in binary64, capped at 99 and
  rounded: when moreover the values are at most 100, the weights at most 1 and the
  template has at most 11 entries, it differs by at most 1 from the exact weighted sum
  capped at 99 and rounded to the nearest integer, and is equal to it unless the exact
  capped sum is within \<open>2\<^sup>-\<^sup>3\<^sup>9\<close> of the middle between two integers.
\<close>

theorem calcRoleFit_weighted_sum:
  assumes "fst ` set t \<subseteq> set METRICS"
    and "\<forall>m\<in>set METRICS. 0 \<le> metric_value p m"
    and "\<forall>(m, w)\<in>set t. 0 \<le> w"
  shows "0 \<le> calcRoleFit p t \<and> calcRoleFit p t \<le> 99
     \<and> ((\<forall>m\<in>set METRICS. metric_value p m \<le> 100) \<and> (\<forall>(m, w)\<in>set t. w \<le> 1) \<and> length t \<le> 11
        \<longrightarrow> \<bar>calcRoleFit p t - spec_roleFit p t\<bar> \<le> 1
            \<and> (round (spec_roleFit_score p t - 1 / 2 ^ 39)
                 = round (spec_roleFit_score p t + 1 / 2 ^ 39)
               \<longrightarrow> calcRoleFit p t = spec_roleFit p t))"
proof (intro conjI impI)
  have "\<forall>(m, w)\<in>set t. 0 \<le> metric_value p m * w"
    using assms by fastforce
  then show "0 \<le> calcRoleFit p t" by (rule roleFit_nonneg)
  show "calcRoleFit p t \<le> 99" by (rule roleFit_at_most_99)
next
  assume h: "(\<forall>m\<in>set METRICS. metric_value p m \<le> 100) \<and> (\<forall>(m, w)\<in>set t. w \<le> 1) \<and> length t \<le> 11"
  with assms have b: "\<forall>(m, w)\<in>set t. 0 \<le> metric_value p m \<and> metric_value p m \<le> 100 \<and> 0 \<le> w \<and> w \<le> 1"
    by fastforce
  from h have n: "length t \<le> 11" by simp
  show "\<bar>calcRoleFit p t - spec_roleFit p t\<bar> \<le> 1"
    by (rule roleFit_agrees(1) [OF b n])
  assume "round (spec_roleFit_score p t - 1 / 2 ^ 39) = round (spec_roleFit_score p t + 1 / 2 ^ 39)"
  then show "calcRoleFit p t = spec_roleFit p t"
    by (rule roleFit_agrees(2) [OF b n])
qed

text \<open>
  The theorem at the role \<open>Poacher\<close> and a player whose catalog values are all 50:
  the fit is 50, as is the rounded exact weighted sum.
\<close>

theorem calcRoleFit_weighted_sum_witness:
  "calcRoleFit (flat_profile 1 ''Ada'' ''FW'' 24 50) Poacher = 50
   \<and> spec_roleFit (flat_profile 1 ''Ada'' ''FW'' 24 50) Poacher = 50
   \<and> 0 \<le> calcRoleFit (flat_profile 1 ''Ada'' ''FW'' 24 50) Poacher
   \<and> calcRoleFit (flat_profile 1 ''Ada'' ''FW'' 24 50) Poacher \<le> 99"
proof -
  let ?p = "flat_profile 1 ''Ada'' ''FW'' 24 50"
  have h1: "fst ` set Poacher \<subseteq> set METRICS"
    by (simp add: Poacher_eq METRICS_def)
  have h2: "\<forall>m\<in>set METRICS. 0 \<le> metric_value ?p m"
    by (simp add: metric_value_flat_profile)
  have h3: "\<forall>(m, w)\<in>set Poacher. 0 \<le> w"
    by (simp add: Poacher_values)
  have h4: "(\<forall>m\<in>set METRICS. metric_value ?p m \<le> 100) \<and> (\<forall>(m, w)\<in>set Poacher. w \<le> 1)
            \<and> length Poacher \<le> 11"
    by (simp add: metric_value_flat_profile) (simp add: Poacher_values)
  have r: "round (spec_roleFit_score ?p Poacher - 1 / 2 ^ 39) = 50"
    "round (spec_roleFit_score ?p Poacher + 1 / 2 ^ 39) = 50"
    "spec_roleFit ?p Poacher = 50"
    unfolding spec_roleFit_def spec_roleFit_score_flat_Poacher by (rule round_eqI; simp)+
  show ?thesis
    using calcRoleFit_weighted_sum [OF h1 h2 h3] h4 r by simp
qed

text \<open>
  The rounded exact weighted sum is not always returned. For \<open>Poacher\<close> and a player
  with 55 shots, shot conversion 46 and press success 7 the code accumulates
  25.499999999999996 and returns 25; the exact weighted sum is above 25.5 for the
  binary64 weights and is 25.5 for the decimal weights of the source text, and rounds
  to 26 for both.
\<close>

theorem calcRoleFit_rounds_below:
  "calcRoleFit (listed_profile [(''shots_p90'', 55), (''shot_conversion'', 46), (''press_success'', 7)])
       Poacher = 25
   \<and> spec_roleFit (listed_profile [(''shots_p90'', 55), (''shot_conversion'', 46), (''press_success'', 7)])
       Poacher = 26
   \<and> spec_roleFit (listed_profile [(''shots_p90'', 55), (''shot_conversion'', 46), (''press_success'', 7)])
       [(''shot_conversion'', 0.30), (''xg_p90'', 0.25), (''shots_p90'', 0.20),
        (''aerial_win_rate'', 0.15), (''press_success'', 0.10)] = 26"
proof -
  let ?p = "listed_profile [(''shots_p90'', 55), (''shot_conversion'', 46), (''press_success'', 7)]"
  have 1: "spec_roleFit ?p Poacher = 26"
    unfolding spec_roleFit_def spec_roleFit_score_def Poacher_values
    by (rule round_eqI) (simp_all add: listed_profile_def metric_value_def)
  have 2: "spec_roleFit ?p [(''shot_conversion'', 0.30), (''xg_p90'', 0.25), (''shots_p90'', 0.20),
        (''aerial_win_rate'', 0.15), (''press_success'', 0.10)] = 26"
    unfolding spec_roleFit_def spec_roleFit_score_def
    by (rule round_eqI) (simp_all add: listed_profile_def metric_value_def)
  from 1 2 show ?thesis
    by (simp add: calcRoleFit_listed_55_46_7)
qed

text \<open>
  Claim C7, as the code has it. The role fit has no floor: it is only capped at 99.
  It is non-negative when every product of a value and its weight is non-negative,
  and it is negative, at most \<open>-1\<close>, when no product is positive and one of them is
  \<open>-1\<close> or less.
\<close>

theorem calcRoleFit_no_floor:
  "((\<forall>(m, w)\<in>set t. 0 \<le> metric_value p m * w) \<longrightarrow> 0 \<le> calcRoleFit p t)
   \<and> ((\<forall>(m, w)\<in>set t. metric_value p m * w \<le> 0) \<and> (\<exists>(m, w)\<in>set t. metric_value p m * w \<le> - 1)
       \<longrightarrow> calcRoleFit p t \<le> - 1)"
  using roleFit_nonneg [of t p] roleFit_negative [of t p] by blast

text \<open>
  The theorem at the role \<open>Poacher\<close>, for a player whose catalog values are all 50
  and for a player whose catalog values are all \<open>-10\<close>.
\<close>

theorem calcRoleFit_no_floor_witness:
  "0 \<le> calcRoleFit (flat_profile 1 ''Ada'' ''FW'' 24 50) Poacher
   \<and> calcRoleFit (flat_profile 1 ''Ada'' ''FW'' 24 (- 10)) Poacher \<le> - 1"
proof -
  have 1: "\<forall>(m, w)\<in>set Poacher. 0 \<le> metric_value (flat_profile 1 ''Ada'' ''FW'' 24 50) m * w"
    unfolding Poacher_values by (simp add: metric_value_flat_profile METRICS_def)
  have 2: "(\<forall>(m, w)\<in>set Poacher. metric_value (flat_profile 1 ''Ada'' ''FW'' 24 (- 10)) m * w \<le> 0)
      \<and> (\<exists>(m, w)\<in>set Poacher. metric_value (flat_profile 1 ''Ada'' ''FW'' 24 (- 10)) m * w \<le> - 1)"
    unfolding Poacher_values by (simp add: metric_value_flat_profile METRICS_def)
  show ?thesis
    using calcRoleFit_no_floor [of Poacher "flat_profile 1 ''Ada'' ''FW'' 24 50"]
      calcRoleFit_no_floor [of Poacher "flat_profile 1 ''Ada'' ''FW'' 24 (- 10)"] 1 2
    by blast
qed

text \<open>
  No floor: for a player whose catalog values are all \<open>-10\<close> the fit for \<open>Poacher\<close>
  is \<open>-10\<close>.
\<close>

theorem calcRoleFit_negative:
  "calcRoleFit (flat_profile 1 ''Ada'' ''FW'' 24 (- 10)) Poacher = - 10"
  by (rule calcRoleFit_flat_minus_10)

subsection \<open>What the scoring functions read\<close>

text \<open>
  Claim C10. Two player records that agree on the 11 catalog metrics get the same
  overall rating, the same fit for every role template over catalog metrics, and the
  same similarity against every other player, on either side, whatever their names,
  positions, ages, minutes played and other properties are.
\<close>

theorem scoring_reads_catalog_only:
  assumes "\<forall>m\<in>set METRICS. metrics p m = metrics q m"
  shows "computeOverall p = computeOverall q
     \<and> (\<forall>t. fst ` set t \<subseteq> set METRICS \<longrightarrow> calcRoleFit p t = calcRoleFit q t)
     \<and> (\<forall>r. euclideanSimilarity p r = euclideanSimilarity q r
            \<and> euclideanSimilarity r p = euclideanSimilarity r q)"
proof (intro conjI allI impI)
  have "fold (\<lambda>m s. js_add s (or0 (metrics p m))) METRICS 0
        = fold (\<lambda>m s. js_add s (or0 (metrics q m))) METRICS 0"
    using assms by (intro fold_cong) simp_all
  then show "computeOverall p = computeOverall q"
    by (simp only: computeOverall_accumulate)
next
  fix t :: role_weights
  assume "fst ` set t \<subseteq> set METRICS"
  with assms have "\<forall>x\<in>set t. metrics p (fst x) = metrics q (fst x)"
    by fastforce
  then have "fold (\<lambda>x s. js_add s (js_mul (or0 (metrics p (fst x))) (snd x))) t 0
             = fold (\<lambda>x s. js_add s (js_mul (or0 (metrics q (fst x))) (snd x))) t 0"
    by (intro fold_cong) simp_all
  then show "calcRoleFit p t = calcRoleFit q t"
    by (simp only: calcRoleFit_accumulate)
next
  fix r :: "'c player_scheme"
  have "fold (\<lambda>m s. js_add s (Math_pow2 (js_sub (or0 (metrics p m)) (or0 (metrics r m))))) METRICS 0
        = fold (\<lambda>m s. js_add s (Math_pow2 (js_sub (or0 (metrics q m)) (or0 (metrics r m))))) METRICS 0"
    using assms by (intro fold_cong) simp_all
  then show "euclideanSimilarity p r = euclideanSimilarity q r"
    by (simp only: euclideanSimilarity_def euclideanSimilarity_on_accumulate)
  have "fold (\<lambda>m s. js_add s (Math_pow2 (js_sub (or0 (metrics r m)) (or0 (metrics p m))))) METRICS 0
        = fold (\<lambda>m s. js_add s (Math_pow2 (js_sub (or0 (metrics r m)) (or0 (metrics q m))))) METRICS 0"
    using assms by (intro fold_cong) simp_all
  then show "euclideanSimilarity r p = euclideanSimilarity r q"
    by (simp only: euclideanSimilarity_def euclideanSimilarity_on_accumulate)
qed

text \<open>
  The theorem at two records with the catalog values 50 that differ in identifier,
  name, position, age and minutes played, the second carrying a property \<open>goals\<close>
  that is not in the catalog.
\<close>

theorem scoring_reads_catalog_only_witness:
  "computeOverall (flat_profile 1 ''Ada'' ''FW'' 24 50)
     = computeOverall ((flat_profile 2 ''Bo'' ''MF'' 31 50)
         \<lparr>minutes_played := 12,
          metrics := (metrics (flat_profile 2 ''Bo'' ''MF'' 31 50))(''goals'' \<mapsto> 7)\<rparr>)
   \<and> calcRoleFit (flat_profile 1 ''Ada'' ''FW'' 24 50) Poacher
     = calcRoleFit ((flat_profile 2 ''Bo'' ''MF'' 31 50)
         \<lparr>minutes_played := 12,
          metrics := (metrics (flat_profile 2 ''Bo'' ''MF'' 31 50))(''goals'' \<mapsto> 7)\<rparr>) Poacher
   \<and> euclideanSimilarity (flat_profile 1 ''Ada'' ''FW'' 24 50) (blank_profile 3 ''Cy'' ''MF'' 27)
     = euclideanSimilarity ((flat_profile 2 ''Bo'' ''MF'' 31 50)
         \<lparr>minutes_played := 12,
          metrics := (metrics (flat_profile 2 ''Bo'' ''MF'' 31 50))(''goals'' \<mapsto> 7)\<rparr>)
         (blank_profile 3 ''Cy'' ''MF'' 27)"
proof -
  let ?p = "flat_profile 1 ''Ada'' ''FW'' 24 50"
  let ?q = "(flat_profile 2 ''Bo'' ''MF'' 31 50)
         \<lparr>minutes_played := 12,
          metrics := (metrics (flat_profile 2 ''Bo'' ''MF'' 31 50))(''goals'' \<mapsto> 7)\<rparr>"
  have h: "\<forall>m\<in>set METRICS. metrics ?p m = metrics ?q m"
    by (simp add: metrics_flat_profile) (simp add: METRICS_def)
  have t: "fst ` set Poacher \<subseteq> set METRICS"
    by (simp add: Poacher_eq METRICS_def)
  show ?thesis
    using scoring_reads_catalog_only [OF h] t by blast
qed

subsection \<open>Sorting by descending score\<close>

text \<open>
  With the comparator \<open>(a, b) => key(b) - key(a)\<close> the sort is the stable insertion
  sort of the library on the negated key.
\<close>

lemma insert_sorted_desc:
  fixes key :: "'a \<Rightarrow> int"
  shows "insert_sorted (\<lambda>a b. key b - key a) x xs = insort_key (\<lambda>a. - key a) x xs"
  by (induction xs) simp_all

lemma Array_sort_desc:
  fixes key :: "'a \<Rightarrow> int"
  shows "Array_sort (\<lambda>a b. key b - key a) xs = sort_key (\<lambda>a. - key a) xs"
  by (induction xs) (simp_all add: Array_sort_def sort_key_def insert_sorted_desc)

lemma sorted_desc_sort_key:
  fixes key :: "'a \<Rightarrow> int"
  shows "sorted_wrt (\<lambda>x y. key y \<le> key x) (sort_key (\<lambda>a. - key a) xs)"
proof -
  have "sorted (map (\<lambda>a. - key a) (sort_key (\<lambda>a. - key a) xs))"
    by (rule sorted_sort_key)
  then show ?thesis
    by (simp add: sorted_map)
qed

lemma stable_desc_sort_key:
  fixes key :: "'a \<Rightarrow> int"
  shows "filter (\<lambda>y. key y = k) (sort_key (\<lambda>a. - key a) xs) = filter (\<lambda>y. key y = k) xs"
  using sort_key_stable [of "\<lambda>a. - key a" "- k" xs] by simp

lemma set_insert_sorted: "set (insert_sorted c x xs) = insert x (set xs)"
  by (induction xs) auto

lemma set_Array_sort: "set (Array_sort c xs) = set xs"
  by (induction xs) (simp_all add: Array_sort_def set_insert_sorted)

lemma length_insert_sorted: "length (insert_sorted c x xs) = Suc (length xs)"
  by (induction xs) simp_all

lemma length_Array_sort: "length (Array_sort c xs) = length xs"
  by (induction xs) (simp_all add: Array_sort_def length_insert_sorted)

text \<open>
  For a comparator that is total and transitive, as a consistent comparator is, the
  result of the sort is ordered by it.
\<close>

lemma sorted_insert_sorted:
  assumes total: "\<And>a b. c a b \<le> 0 \<or> c b a \<le> 0"
    and trans: "\<And>a b d. c a b \<le> 0 \<Longrightarrow> c b d \<le> 0 \<Longrightarrow> c a d \<le> 0"
  shows "sorted_wrt (\<lambda>a b. c a b \<le> 0) xs
         \<Longrightarrow> sorted_wrt (\<lambda>a b. c a b \<le> 0) (insert_sorted c x xs)"
proof (induction xs)
  case Nil
  then show ?case by simp
next
  case (Cons y ys)
  show ?case
  proof (cases "c x y \<le> 0")
    case True
    with Cons.prems show ?thesis
      by (auto intro: trans)
  next
    case False
    with total have "c y x \<le> 0" by blast
    with False Cons show ?thesis
      by (auto simp: set_insert_sorted)
  qed
qed

lemma sorted_Array_sort:
  assumes "\<And>a b. c a b \<le> 0 \<or> c b a \<le> 0"
    and "\<And>a b d. c a b \<le> 0 \<Longrightarrow> c b d \<le> 0 \<Longrightarrow> c a d \<le> 0"
  shows "sorted_wrt (\<lambda>a b. c a b \<le> 0) (Array_sort c xs)"
proof (induction xs)
  case Nil
  show ?case by (simp add: Array_sort_def)
next
  case (Cons x xs)
  have "Array_sort c (x # xs) = insert_sorted c x (Array_sort c xs)"
    by (simp add: Array_sort_def)
  with Cons show ?case
    using sorted_insert_sorted [of c "Array_sort c xs" x] assms by simp
qed

lemma with_sim_simps:
  "player_id (with_sim p s) = player_id p"
  "position (with_sim p s) = position p"
  "age (with_sim p s) = age p"
  "sim (with_sim p s) = s"
  "player.truncate (with_sim p s) = p"
  by (simp_all add: with_sim_def player.defs sim_row.defs)

lemma with_fit_simps:
  "fit (with_fit p s) = s"
  "player.truncate (with_fit p s) = p"
  by (simp_all add: with_fit_def player.defs fit_row.defs)

subsection \<open>The loaded collection\<close>

text \<open>
  After \<open>loadData\<close> the collection is ordered by name, for a \<open>localeCompare\<close> that
  is a consistent comparator, and every player carries its overall rating.
\<close>

lemma loadData_sorted_by_name:
  assumes "\<And>s t. localeCompare s t \<le> 0 \<or> localeCompare t s \<le> 0"
    and "\<And>s t u. localeCompare s t \<le> 0 \<Longrightarrow> localeCompare t u \<le> 0 \<Longrightarrow> localeCompare s u \<le> 0"
  shows "sorted_wrt (\<lambda>a b. localeCompare (name a) (name b) \<le> 0) (loadData localeCompare json)"
  unfolding loadData_def Let_def
  by (rule sorted_Array_sort) (use assms in blast)+

lemma loadData_overall:
  "p \<in> set (loadData localeCompare json) \<Longrightarrow> overall p = Some (computeOverall p)"
  by (auto simp: loadData_def set_Array_sort computeOverall_def)

subsection \<open>The leaderboard\<close>

lemma leaderboard_eq:
  "leaderboard PLAYERS w =
     take 20 (sort_key (\<lambda>e. - fit e) (map (\<lambda>pl. with_fit pl (calcRoleFit pl w)) PLAYERS))"
  by (simp add: leaderboard_def Array_sort_desc)

text \<open>
  The leaderboard that \<open>renderRoleFit\<close> renders is the one of a role of \<open>ROLES\<close>.
\<close>

lemma renderRoleFit_leaderboard:
  assumes "role_select < length PLAYERS"
  shows "\<exists>fits r w. renderRoleFit PLAYERS role_select = Rendered (fits, leaderboard PLAYERS w)
           \<and> (r, w) \<in> set ROLES"
proof -
  let ?p = "PLAYERS ! role_select"
  let ?rows = "map (\<lambda>(r, weights). \<lparr>role = r, role_score = calcRoleFit ?p weights\<rparr>) ROLES"
  let ?fits = "Array_sort (\<lambda>a b. role_score b - role_score a) ?rows"
  have "length ?fits = 7"
    by (simp add: length_Array_sort ROLES_def)
  then obtain best rest where f: "?fits = best # rest"
    by (cases ?fits) simp_all
  then have "best \<in> set ?fits" by simp
  then have "best \<in> set ?rows"
    by (simp only: set_Array_sort)
  then obtain r w where rw: "(r, w) \<in> set ROLES" and b: "role best = r"
    by auto
  have "distinct (map fst ROLES)"
    by (simp add: ROLES_def)
  with rw have "map_of ROLES r = Some w"
    by simp
  with f b assms have "renderRoleFit PLAYERS role_select = Rendered (?fits, leaderboard PLAYERS w)"
    by (simp add: renderRoleFit_def Let_def)
  with rw show ?thesis by blast
qed

text \<open>
  Claim C5. For every role template, every collection of players and every score
  \<open>k\<close>, the players with fit \<open>k\<close> on the leaderboard are, in leaderboard order, an
  initial part of the players with fit \<open>k\<close> of the collection in their order there:
  players with equal fit keep the relative order of the input. The collection that
  \<open>loadData\<close> establishes is ordered by name, for a \<open>localeCompare\<close> that is total
  and transitive.
\<close>

theorem leaderboard_ties_keep_input_order:
  "prefix (map player.truncate (filter (\<lambda>e. fit e = k) (leaderboard PLAYERS w)))
          (filter (\<lambda>pl. calcRoleFit pl w = k) PLAYERS)
   \<and> ((\<forall>s t. localeCompare s t \<le> 0 \<or> localeCompare t s \<le> 0)
        \<and> (\<forall>s t u. localeCompare s t \<le> 0 \<and> localeCompare t u \<le> 0
               \<longrightarrow> localeCompare s u \<le> 0)
        \<longrightarrow> sorted_wrt (\<lambda>a b. localeCompare (name a) (name b) \<le> 0)
              (loadData localeCompare json))"
proof (intro conjI impI)
  assume "(\<forall>s t. localeCompare s t \<le> 0 \<or> localeCompare t s \<le> 0)
        \<and> (\<forall>s t u. localeCompare s t \<le> 0 \<and> localeCompare t u \<le> 0
               \<longrightarrow> localeCompare s u \<le> 0)"
  then show "sorted_wrt (\<lambda>a b. localeCompare (name a) (name b) \<le> 0)
              (loadData localeCompare json)"
    by (intro loadData_sorted_by_name) blast+
next
  let ?rows = "map (\<lambda>pl. with_fit pl (calcRoleFit pl w)) PLAYERS"
  let ?sorted = "sort_key (\<lambda>e. - fit e) ?rows"
  have "prefix (filter (\<lambda>e. fit e = k) (take 20 ?sorted)) (filter (\<lambda>e. fit e = k) ?sorted)"
    by (intro filter_mono_prefix take_is_prefix)
  then have "prefix (filter (\<lambda>e. fit e = k) (take 20 ?sorted)) (filter (\<lambda>e. fit e = k) ?rows)"
    by (simp only: stable_desc_sort_key)
  then have "prefix (map player.truncate (filter (\<lambda>e. fit e = k) (take 20 ?sorted)))
               (map player.truncate (filter (\<lambda>e. fit e = k) ?rows))"
    by (rule map_mono_prefix)
  moreover have "map player.truncate (filter (\<lambda>e. fit e = k) ?rows)
                 = filter (\<lambda>pl. calcRoleFit pl w = k) PLAYERS"
    by (simp add: filter_map o_def with_fit_simps)
  ultimately show "prefix (map player.truncate (filter (\<lambda>e. fit e = k) (leaderboard PLAYERS w)))
          (filter (\<lambda>pl. calcRoleFit pl w = k) PLAYERS)"
    by (simp add: leaderboard_eq)
qed

text \<open>
  The leaderboard of the squad for \<open>Poacher\<close>: Ada and Flo have fit 50, Bo and Cy
  have fit 20, and both pairs stand in the order of the squad. Three players loaded
  in the order Bo, Cy, Ada come out ordered by name, with their overall ratings.
\<close>

lemma loadData_example:
  "loadData byCodeUnit
     [flat_profile 2 ''Bo'' ''FW'' 30 20, flat_profile 3 ''Cy'' ''MF'' 27 20,
      flat_profile 1 ''Ada'' ''FW'' 24 50]
   = [(flat_profile 1 ''Ada'' ''FW'' 24 50)\<lparr>overall := Some 50\<rparr>,
      (flat_profile 2 ''Bo'' ''FW'' 30 20)\<lparr>overall := Some 20\<rparr>,
      (flat_profile 3 ''Cy'' ''MF'' 27 20)\<lparr>overall := Some 20\<rparr>]"
  by (simp add: loadData_def Array_sort_def computeOverall_squad
      flat_profile_fields byCodeUnit_examples)

lemma leaderboard_squad:
  "leaderboard squad Poacher =
     [with_fit (flat_profile 5 ''Ed'' ''FW'' 22 80) 80,
      with_fit (flat_profile 1 ''Ada'' ''FW'' 24 50) 50,
      with_fit (flat_profile 6 ''Flo'' ''FW'' 41 50) 50,
      with_fit (flat_profile 4 ''Di'' ''FW'' 35 45) 45,
      with_fit (flat_profile 2 ''Bo'' ''FW'' 30 20) 20,
      with_fit (flat_profile 3 ''Cy'' ''MF'' 27 20) 20]"
  by (simp add: leaderboard_eq squad_def sort_key_def calcRoleFit_squad with_fit_simps)

theorem leaderboard_ties_witness:
  "leaderboard squad Poacher =
     [with_fit (flat_profile 5 ''Ed'' ''FW'' 22 80) 80,
      with_fit (flat_profile 1 ''Ada'' ''FW'' 24 50) 50,
      with_fit (flat_profile 6 ''Flo'' ''FW'' 41 50) 50,
      with_fit (flat_profile 4 ''Di'' ''FW'' 35 45) 45,
      with_fit (flat_profile 2 ''Bo'' ''FW'' 30 20) 20,
      with_fit (flat_profile 3 ''Cy'' ''MF'' 27 20) 20]
   \<and> prefix [flat_profile 1 ''Ada'' ''FW'' 24 50, flat_profile 6 ''Flo'' ''FW'' 41 50]
        (filter (\<lambda>pl. calcRoleFit pl Poacher = 50) squad)
   \<and> prefix [flat_profile 2 ''Bo'' ''FW'' 30 20, flat_profile 3 ''Cy'' ''MF'' 27 20]
        (filter (\<lambda>pl. calcRoleFit pl Poacher = 20) squad)
   \<and> sorted_wrt (\<lambda>a b. byCodeUnit (name a) (name b) \<le> 0)
        [(flat_profile 1 ''Ada'' ''FW'' 24 50)\<lparr>overall := Some 50\<rparr>,
         (flat_profile 2 ''Bo'' ''FW'' 30 20)\<lparr>overall := Some 20\<rparr>,
         (flat_profile 3 ''Cy'' ''MF'' 27 20)\<lparr>overall := Some 20\<rparr>]"
proof -
  have c: "(\<forall>s t. byCodeUnit s t \<le> 0 \<or> byCodeUnit t s \<le> 0)
        \<and> (\<forall>s t u. byCodeUnit s t \<le> 0 \<and> byCodeUnit t u \<le> 0 \<longrightarrow> byCodeUnit s u \<le> 0)"
    using byCodeUnit_total byCodeUnit_trans by blast
  have a: "prefix (map player.truncate (filter (\<lambda>e. fit e = 50) (leaderboard squad Poacher)))
             (filter (\<lambda>pl. calcRoleFit pl Poacher = 50) squad)"
    and s: "sorted_wrt (\<lambda>a b. byCodeUnit (name a) (name b) \<le> 0)
        (loadData byCodeUnit
           [flat_profile 2 ''Bo'' ''FW'' 30 20, flat_profile 3 ''Cy'' ''MF'' 27 20,
            flat_profile 1 ''Ada'' ''FW'' 24 50])"
    using leaderboard_ties_keep_input_order [of 50 squad Poacher byCodeUnit
        "[flat_profile 2 ''Bo'' ''FW'' 30 20, flat_profile 3 ''Cy'' ''MF'' 27 20,
          flat_profile 1 ''Ada'' ''FW'' 24 50]"] c
    by blast+
  have b: "prefix (map player.truncate (filter (\<lambda>e. fit e = 20) (leaderboard squad Poacher)))
             (filter (\<lambda>pl. calcRoleFit pl Poacher = 20) squad)"
    using leaderboard_ties_keep_input_order [of 20 squad Poacher] by blast
  from a b s show ?thesis
    unfolding loadData_example by (simp add: leaderboard_squad with_fit_simps)
qed

subsection \<open>The shortlist of similar players\<close>

text \<open>
  When the selection names a player, \<open>renderSimilar\<close> renders the first five of the
  candidate pool sorted by descending similarity to that player.
\<close>

lemma renderSimilar_Rendered:
  assumes "similar_select < length PLAYERS"
  shows "renderSimilar PLAYERS similar_select posFilter ageText =
     Rendered (take 5 (sort_key (\<lambda>e. - sim e)
        (map (\<lambda>p. with_sim p (euclideanSimilarity (PLAYERS ! similar_select) p))
           (filter (passes_filters (PLAYERS ! similar_select) posFilter (parseInt ageText)) PLAYERS))))"
proof -
  have "filter (passes_filters (PLAYERS ! similar_select) posFilter (parseInt ageText)) PLAYERS
      = filter (\<lambda>p. le_number (age p) (parseInt ageText))
          (if posFilter \<noteq> ''all''
           then filter (\<lambda>p. position p = posFilter)
                  (filter (\<lambda>p. player_id p \<noteq> player_id (PLAYERS ! similar_select)) PLAYERS)
           else filter (\<lambda>p. player_id p \<noteq> player_id (PLAYERS ! similar_select)) PLAYERS)"
    by (auto simp: passes_filters_def intro: filter_cong)
  then show ?thesis
    using assms by (simp add: renderSimilar_def Let_def Array_sort_desc)
qed

text \<open>
  Claim C3. For a selected reference player, any pool, position filter and age filter,
  \<open>renderSimilar\<close> renders a shortlist (an empty one included) in which no entry has
  the identifier of the reference player, every entry has the position asked for
  unless the filter is \<open>all\<close>, every entry has an age that is at most the parsed age
  ceiling, and every entry is a player of the pool with its similarity to the
  reference player. The shortlist is sorted by descending similarity, entries of
  equal similarity stand in the order of the pool, and there are at most five.
\<close>

theorem renderSimilar_shortlist:
  assumes "similar_select < length PLAYERS"
  shows "\<exists>scored. renderSimilar PLAYERS similar_select posFilter ageText = Rendered scored
    \<and> (\<forall>e\<in>set scored.
          player_id e \<noteq> player_id (PLAYERS ! similar_select)
        \<and> (posFilter \<noteq> ''all'' \<longrightarrow> position e = posFilter)
        \<and> (\<exists>maxAge. parseInt ageText = Some maxAge \<and> age e \<le> maxAge)
        \<and> player.truncate e \<in> set PLAYERS
        \<and> sim e = euclideanSimilarity (PLAYERS ! similar_select) (player.truncate e))
    \<and> sorted_wrt (\<lambda>x y. sim y \<le> sim x) scored
    \<and> (\<forall>k. prefix (map player.truncate (filter (\<lambda>e. sim e = k) scored))
              (filter (\<lambda>p. euclideanSimilarity (PLAYERS ! similar_select) p = k)
                 (filter (passes_filters (PLAYERS ! similar_select) posFilter (parseInt ageText))
                    PLAYERS)))
    \<and> length scored \<le> 5"
proof -
  let ?ref = "PLAYERS ! similar_select"
  let ?pool = "filter (passes_filters ?ref posFilter (parseInt ageText)) PLAYERS"
  let ?rows = "map (\<lambda>p. with_sim p (euclideanSimilarity ?ref p)) ?pool"
  let ?sorted = "sort_key (\<lambda>e. - sim e) ?rows"
  let ?scored = "take 5 ?sorted"
  have r: "renderSimilar PLAYERS similar_select posFilter ageText = Rendered ?scored"
    by (rule renderSimilar_Rendered [OF assms])
  have members: "\<forall>e\<in>set ?scored.
          player_id e \<noteq> player_id ?ref
        \<and> (posFilter \<noteq> ''all'' \<longrightarrow> position e = posFilter)
        \<and> (\<exists>maxAge. parseInt ageText = Some maxAge \<and> age e \<le> maxAge)
        \<and> player.truncate e \<in> set PLAYERS
        \<and> sim e = euclideanSimilarity ?ref (player.truncate e)"
  proof
    fix e assume "e \<in> set ?scored"
    then have "e \<in> set ?sorted" by (rule in_set_takeD)
    then have "e \<in> set ?rows" by simp
    then obtain p where p: "p \<in> set PLAYERS" "passes_filters ?ref posFilter (parseInt ageText) p"
      and e: "e = with_sim p (euclideanSimilarity ?ref p)"
      by auto
    from p(2) have "\<exists>maxAge. parseInt ageText = Some maxAge \<and> age p \<le> maxAge"
      by (cases "parseInt ageText") (simp_all add: passes_filters_def le_number_def)
    with p show "player_id e \<noteq> player_id ?ref
        \<and> (posFilter \<noteq> ''all'' \<longrightarrow> position e = posFilter)
        \<and> (\<exists>maxAge. parseInt ageText = Some maxAge \<and> age e \<le> maxAge)
        \<and> player.truncate e \<in> set PLAYERS
        \<and> sim e = euclideanSimilarity ?ref (player.truncate e)"
      unfolding e with_sim_simps by (auto simp: passes_filters_def)
  qed
  have sorted: "sorted_wrt (\<lambda>x y. sim y \<le> sim x) ?scored"
    by (intro sorted_wrt_take sorted_desc_sort_key)
  have ties: "\<forall>k. prefix (map player.truncate (filter (\<lambda>e. sim e = k) ?scored))
              (filter (\<lambda>p. euclideanSimilarity ?ref p = k) ?pool)"
  proof
    fix k
    have "prefix (filter (\<lambda>e. sim e = k) ?scored) (filter (\<lambda>e. sim e = k) ?sorted)"
      by (intro filter_mono_prefix take_is_prefix)
    then have "prefix (filter (\<lambda>e. sim e = k) ?scored) (filter (\<lambda>e. sim e = k) ?rows)"
      by (simp only: stable_desc_sort_key)
    then have "prefix (map player.truncate (filter (\<lambda>e. sim e = k) ?scored))
                 (map player.truncate (filter (\<lambda>e. sim e = k) ?rows))"
      by (rule map_mono_prefix)
    moreover have "map player.truncate (filter (\<lambda>e. sim e = k) ?rows)
                   = filter (\<lambda>p. euclideanSimilarity ?ref p = k) ?pool"
      by (simp add: filter_map o_def with_sim_simps)
    ultimately show "prefix (map player.truncate (filter (\<lambda>e. sim e = k) ?scored))
              (filter (\<lambda>p. euclideanSimilarity ?ref p = k) ?pool)"
      by simp
  qed
  have "length ?scored \<le> 5" by simp
  with r members sorted ties show ?thesis by blast
qed

text \<open>
  The theorem at the squad with Ada as the reference player, the position filter
  \<open>FW\<close> and the age ceiling 40: Cy is left out by position and Flo by age, Di is
  closest, and Bo and Ed, both at similarity 70, follow in the order of the squad.
\<close>

lemma pool_squad_FW_40:
  "filter (passes_filters (squad ! 0) ''FW'' (parseInt ''40'')) squad =
     [flat_profile 2 ''Bo'' ''FW'' 30 20, flat_profile 4 ''Di'' ''FW'' 35 45,
      flat_profile 5 ''Ed'' ''FW'' 22 80]"
  by (simp add: squad_def passes_filters_def parseInt_examples le_number_def flat_profile_fields)

lemma shortlist_squad_FW_40:
  "renderSimilar squad 0 ''FW'' ''40'' =
     Rendered [with_sim (flat_profile 4 ''Di'' ''FW'' 35 45) 95,
               with_sim (flat_profile 2 ''Bo'' ''FW'' 30 20) 70,
               with_sim (flat_profile 5 ''Ed'' ''FW'' 22 80) 70]"
proof -
  have h: "0 < length squad"
    by (simp add: squad_def)
  have r: "squad ! 0 = flat_profile 1 ''Ada'' ''FW'' 24 50"
    by (simp add: squad_def)
  show ?thesis
    unfolding renderSimilar_Rendered [OF h] pool_squad_FW_40
    unfolding r
    by (simp add: similarity_squad sort_key_def with_sim_simps)
qed

theorem renderSimilar_shortlist_witness:
  "renderSimilar squad 0 ''FW'' ''40'' =
     Rendered [with_sim (flat_profile 4 ''Di'' ''FW'' 35 45) 95,
               with_sim (flat_profile 2 ''Bo'' ''FW'' 30 20) 70,
               with_sim (flat_profile 5 ''Ed'' ''FW'' 22 80) 70]
   \<and> sorted_wrt (\<lambda>x y. sim y \<le> sim x)
        [with_sim (flat_profile 4 ''Di'' ''FW'' 35 45) 95,
         with_sim (flat_profile 2 ''Bo'' ''FW'' 30 20) 70,
         with_sim (flat_profile 5 ''Ed'' ''FW'' 22 80) 70]
   \<and> prefix [flat_profile 2 ''Bo'' ''FW'' 30 20, flat_profile 5 ''Ed'' ''FW'' 22 80]
        (filter (\<lambda>p. euclideanSimilarity (squad ! 0) p = 70)
           (filter (passes_filters (squad ! 0) ''FW'' (parseInt ''40'')) squad))
   \<and> length [with_sim (flat_profile 4 ''Di'' ''FW'' 35 45) 95,
         with_sim (flat_profile 2 ''Bo'' ''FW'' 30 20) 70,
         with_sim (flat_profile 5 ''Ed'' ''FW'' 22 80) 70] \<le> (5::nat)"
proof -
  have h: "0 < length squad"
    by (simp add: squad_def)
  from renderSimilar_shortlist [OF h, of "''FW''" "''40''"]
  obtain scored where s: "renderSimilar squad 0 ''FW'' ''40'' = Rendered scored"
    and o: "sorted_wrt (\<lambda>x y. sim y \<le> sim x) scored"
    and t: "prefix (map player.truncate (filter (\<lambda>e. sim e = 70) scored))
              (filter (\<lambda>p. euclideanSimilarity (squad ! 0) p = 70)
                 (filter (passes_filters (squad ! 0) ''FW'' (parseInt ''40'')) squad))"
    and l: "length scored \<le> 5"
    by blast
  from s have e: "scored = [with_sim (flat_profile 4 ''Di'' ''FW'' 35 45) 95,
               with_sim (flat_profile 2 ''Bo'' ''FW'' 30 20) 70,
               with_sim (flat_profile 5 ''Ed'' ''FW'' 22 80) 70]"
    by (simp only: shortlist_squad_FW_40 outcome.inject)
  from t have "prefix [flat_profile 2 ''Bo'' ''FW'' 30 20, flat_profile 5 ''Ed'' ''FW'' 22 80]
        (filter (\<lambda>p. euclideanSimilarity (squad ! 0) p = 70)
           (filter (passes_filters (squad ! 0) ''FW'' (parseInt ''40'')) squad))"
    unfolding e by (simp add: with_sim_simps)
  with s o l show ?thesis
    unfolding e by simp
qed

text \<open>
  Claim C9, as the code has it. \<open>renderSimilar\<close> reports no filter value: it never
  throws. An age filter in which \<open>parseInt\<close> finds no number makes every age
  comparison false, and a position filter other than \<open>all\<close> that is no player's
  position matches nobody; both render the empty shortlist.
\<close>

theorem renderSimilar_unrecognized_filter:
  assumes "similar_select < length PLAYERS"
  shows "(parseInt ageText = None
            \<longrightarrow> renderSimilar PLAYERS similar_select posFilter ageText = Rendered [])
       \<and> (posFilter \<noteq> ''all'' \<and> posFilter \<notin> position ` set PLAYERS
            \<longrightarrow> renderSimilar PLAYERS similar_select posFilter ageText = Rendered [])
       \<and> renderSimilar PLAYERS similar_select posFilter ageText \<noteq> Threw_TypeError"
proof (intro conjI impI)
  assume "parseInt ageText = None"
  then have "filter (passes_filters (PLAYERS ! similar_select) posFilter (parseInt ageText)) PLAYERS = []"
    by (simp add: passes_filters_def le_number_def)
  then show "renderSimilar PLAYERS similar_select posFilter ageText = Rendered []"
    by (simp add: renderSimilar_Rendered [OF assms])
next
  assume "posFilter \<noteq> ''all'' \<and> posFilter \<notin> position ` set PLAYERS"
  then have "filter (passes_filters (PLAYERS ! similar_select) posFilter (parseInt ageText)) PLAYERS = []"
    by (auto simp: passes_filters_def filter_empty_conv)
  then show "renderSimilar PLAYERS similar_select posFilter ageText = Rendered []"
    by (simp add: renderSimilar_Rendered [OF assms])
next
  show "renderSimilar PLAYERS similar_select posFilter ageText \<noteq> Threw_TypeError"
    by (simp add: renderSimilar_Rendered [OF assms])
qed

text \<open>
  The theorem at the squad, with the age filter \<open>abc\<close> and with the position filter
  \<open>Goalkeeper\<close>.
\<close>

theorem renderSimilar_unrecognized_filter_witness:
  "parseInt ''abc'' = None
   \<and> renderSimilar squad 0 ''all'' ''abc'' = Rendered []
   \<and> renderSimilar squad 0 ''Goalkeeper'' ''40'' = Rendered []"
proof -
  have h: "0 < length squad"
    by (simp add: squad_def)
  have a: "parseInt ''abc'' = None"
    by (rule parseInt_examples)
  have p: "''Goalkeeper'' \<noteq> ''all'' \<and> ''Goalkeeper'' \<notin> position ` set squad"
    by (simp add: squad_def flat_profile_fields)
  show ?thesis
    using renderSimilar_unrecognized_filter [OF h, of "''abc''" "''all''"]
      renderSimilar_unrecognized_filter [OF h, of "''40''" "''Goalkeeper''"] a p
    by blast
qed

text \<open>
  Silence: with the age filter \<open>abc\<close> the squad gives the empty shortlist, as a pool
  without candidates does, while the age filter \<open>40\<close> gives three entries.
\<close>

theorem renderSimilar_silent_empty:
  "renderSimilar squad 0 ''FW'' ''abc'' = Rendered []
   \<and> renderSimilar squad 0 ''FW'' ''40'' \<noteq> Rendered []"
proof -
  have h: "0 < length squad"
    by (simp add: squad_def)
  have "filter (passes_filters (squad ! 0) ''FW'' (parseInt ''abc'')) squad = []"
    by (simp add: passes_filters_def parseInt_examples le_number_def)
  then have "renderSimilar squad 0 ''FW'' ''abc'' = Rendered []"
    by (simp add: renderSimilar_Rendered [OF h])
  then show ?thesis
    by (simp add: shortlist_squad_FW_40)
qed

end
